theory Spec2Isabelle
  imports Main "HOL-Library.Word" "HOL-Library.Multiset"
begin

section \<open>Cards, errors and the card codec\<close>

text \<open>
  The file \<^verbatim>\<open>loader.go\<close> uses the types \<^verbatim>\<open>Card\<close>, \<^verbatim>\<open>CardSuit\<close> and \<^verbatim>\<open>CardRank\<close>, the
  constants \<^verbatim>\<open>SPADES\<close>, \<^verbatim>\<open>CLUBS\<close>, \<^verbatim>\<open>HEARTS\<close>, \<^verbatim>\<open>DIAMONDS\<close>, the method \<^verbatim>\<open>Card.Id\<close> and the
  function \<^verbatim>\<open>ParseCard\<close>, none of which it declares.
\<close>

text \<open>Modelled from the spec: the declaration of \<^verbatim>\<open>CardSuit\<close> is missing; a suit is
  "one of 4", and the loader names the four constants.\<close>

datatype CardSuit = SPADES | CLUBS | HEARTS | DIAMONDS

text \<open>Modelled from the spec: the declaration of \<^verbatim>\<open>CardRank\<close> is missing; a rank is
  "one of 13".\<close>

datatype CardRank =
  ACE | TWO | THREE | FOUR | FIVE | SIX | SEVEN | EIGHT | NINE | TEN | JACK | QUEEN | KING

text \<open>Modelled from the spec: the declaration of \<^verbatim>\<open>Card\<close> is missing; a card is an
  immutable value with a suit, a rank and a canonical identity string. The field
  \<open>CardId\<close> is what the method \<^verbatim>\<open>card.Id()\<close> returns.\<close>

record Card =
  Suit :: CardSuit
  Rank :: CardRank
  CardId :: string

text \<open>One entry of the \<^verbatim>\<open>invalids\<close> slice that \<^verbatim>\<open>AddCard\<close> joins into its message.\<close>

datatype violation =
    TooManyCards                \<comment> \<open>\<^verbatim>\<open>"too many cards."\<close>\<close>
  | TooManySuit CardSuit        \<comment> \<open>\<^verbatim>\<open>fmt.Sprint("too many", SuitName(card.Suit), "cards")\<close>\<close>
  | TooManyRank CardRank        \<comment> \<open>\<^verbatim>\<open>fmt.Sprint("too many", RankName(card.Rank), "cards")\<close>\<close>

text \<open>Go's \<^verbatim>\<open>int\<close> on the 64-bit targets: values that come from the save file are
  64-bit words read in two's complement.\<close>

type_synonym goint = "64 word"

text \<open>
  The Go errors are strings; each constructor stands for one message of the source and
  carries the values formatted into it.
\<close>

datatype error =
    IOError string                      \<comment> \<open>what \<^verbatim>\<open>os.Open\<close> or \<^verbatim>\<open>io.ReadAll\<close> returned\<close>
  | DecodeError string                  \<comment> \<open>what \<^verbatim>\<open>json.Unmarshal\<close> or \<^verbatim>\<open>toml.Unmarshal\<close> returned\<close>
  | ParseError string                   \<comment> \<open>what \<^verbatim>\<open>ParseCard\<close> returned\<close>
  | DuplicateCardError                  \<comment> \<open>\<^verbatim>\<open>"Found duplicate card."\<close>\<close>
  | OverflowError "violation list"      \<comment> \<open>\<^verbatim>\<open>strings.Join(invalids, ", ") + "."\<close>\<close>
  | TooManyStacks nat                   \<comment> \<open>\<^verbatim>\<open>"Number of stacks in tableau exceed max of 7 with %d stacks."\<close>\<close>
  | LengthMismatch                      \<comment> \<open>\<^verbatim>\<open>"tableau.stacks and tableau.facedown lengths do not match."\<close>\<close>
  | TopCardFacedown nat nat goint       \<comment> \<open>\<^verbatim>\<open>"Tableau %d is invalid: Top card must not be facedown: ..."\<close>\<close>
  | TooManyFacedown goint               \<comment> \<open>\<^verbatim>\<open>"Facedown cards exceed max of 21 with %d cards."\<close>\<close>
  | UnrecognizedFoundationError string  \<comment> \<open>\<^verbatim>\<open>"Unrecognized foundation name: " + key\<close>\<close>
  | SuitMismatchError string string nat \<comment> \<open>\<^verbatim>\<open>"Suit mismatch in %s foundation: %s at index %d"\<close>\<close>
  | IncompleteDeckError int             \<comment> \<open>\<^verbatim>\<open>"Found %d cards. Game requires 52 total cards."\<close>\<close>

text \<open>\<^verbatim>\<open>ParseCard\<close> is a parameter of everything below: any function from codes to
  a card or to the message of its own error, which \<^verbatim>\<open>AddCard\<close> returns unchanged
  (\<open>ParseError\<close>).\<close>

type_synonym codec = "string \<Rightarrow> string + Card"

section \<open>The register\<close>

text \<open>
  \<^verbatim>\<open>Cards\<close> is a Go map to the empty struct, that is a set of identities. The counters
  are Go \<^verbatim>\<open>int\<close>s that start at 0 and move by one per call, so they are modelled as
  unbounded integers.
\<close>

record Register =
  Cards :: "string set"
  Suits :: "CardSuit \<rightharpoonup> int"
  Ranks :: "CardRank \<rightharpoonup> int"
  Total :: int

definition NewRegister :: Register where
  "NewRegister = \<lparr>Cards = {}, Suits = Map.empty, Ranks = Map.empty, Total = 0\<rparr>"

text \<open>\<^verbatim>\<open>strings.Contains(id, "?")\<close>: the one-byte string occurs in \<open>id\<close>.\<close>

definition isWildcardId :: "string \<Rightarrow> bool" where
  "isWildcardId ident = (CHR ''?'' \<in> set ident)"

text \<open>"Count all cards": \<^verbatim>\<open>r.Total++\<close>, taken back when it passed 52.\<close>

definition countTotal :: "Register \<Rightarrow> Register \<times> violation list" where
  "countTotal r =
     (let r1 = r\<lparr>Total := Total r + 1\<rparr> in
      if Total r1 > 52 then (r1\<lparr>Total := Total r1 - 1\<rparr>, [TooManyCards]) else (r1, []))"

text \<open>
  "Count cards by suit". The local \<^verbatim>\<open>suitTotal\<close> is the looked-up count plus one when
  the key was present and stays 0 when it was absent; the map entry is written before
  the comparison. The source's \<^verbatim>\<open>suitTotal--\<close> changes the local only, which is not read
  again, so the map keeps the value written.
\<close>

definition countSuit :: "CardSuit \<Rightarrow> Register \<Rightarrow> Register \<times> violation list" where
  "countSuit s r =
     (let (suitTotal, r1) =
            (case Suits r s of
               Some n \<Rightarrow> (n + 1, r\<lparr>Suits := (Suits r)(s \<mapsto> n + 1)\<rparr>)
             | None \<Rightarrow> (0, r\<lparr>Suits := (Suits r)(s \<mapsto> 1)\<rparr>))
      in if suitTotal > 13 then (r1, [TooManySuit s]) else (r1, []))"

text \<open>"Count cards by rank", written like the suit count, with the limit 4.\<close>

definition countRank :: "CardRank \<Rightarrow> Register \<Rightarrow> Register \<times> violation list" where
  "countRank k r =
     (let (rankTotal, r1) =
            (case Ranks r k of
               Some n \<Rightarrow> (n + 1, r\<lparr>Ranks := (Ranks r)(k \<mapsto> n + 1)\<rparr>)
             | None \<Rightarrow> (0, r\<lparr>Ranks := (Ranks r)(k \<mapsto> 1)\<rparr>))
      in if rankTotal > 4 then (r1, [TooManyRank k]) else (r1, []))"

text \<open>
  \<^verbatim>\<open>Register.AddCard\<close>. The register is passed in and returned; the second component is
  the pair \<^verbatim>\<open>(card, err)\<close> of the source (\<open>crd\<close> is the source's \<^verbatim>\<open>card\<close>).
\<close>

definition AddCard :: "codec \<Rightarrow> Register \<Rightarrow> string \<Rightarrow> Register \<times> (error + Card)" where
  "AddCard ParseCard r code =
     (case ParseCard code of
        Inl err \<Rightarrow> (r, Inl (ParseError err))
      | Inr crd \<Rightarrow>
          let ident = CardId crd in
          if \<not> isWildcardId ident \<and> ident \<in> Cards r then (r, Inl DuplicateCardError)
          else
            let r0 = (if \<not> isWildcardId ident then r\<lparr>Cards := insert ident (Cards r)\<rparr> else r);
                (r1, inv1) = countTotal r0;
                (r2, inv2) = countSuit (Suit crd) r1;
                (r3, inv3) = countRank (Rank crd) r2;
                invalids = inv1 @ inv2 @ inv3
            in if length invalids > 0 then (r3, Inl (OverflowError invalids))
               else (r3, Inr crd))"

text \<open>\<^verbatim>\<open>Register.AddCards\<close>: the loop stops at the first error; on success the slice
  holds the cards in the order of the codes.\<close>

fun AddCards :: "codec \<Rightarrow> Register \<Rightarrow> string list \<Rightarrow> Register \<times> (error + Card list)" where
  "AddCards ParseCard r [] = (r, Inr [])"
| "AddCards ParseCard r (code # codes) =
     (case AddCard ParseCard r code of
        (r', Inl err) \<Rightarrow> (r', Inl err)
      | (r', Inr crd) \<Rightarrow>
          (case AddCards ParseCard r' codes of
             (r'', Inl err) \<Rightarrow> (r'', Inl err)
           | (r'', Inr stack) \<Rightarrow> (r'', Inr (crd # stack))))"

section \<open>The save document and the game\<close>

text \<open>The struct \<^verbatim>\<open>SaveData\<close>, its nested structs flattened into one record. The
  decoded \<^verbatim>\<open>Foundations\<close> is a Go map.\<close>

record SaveData =
  Stock_Limit :: goint
  Stock_Loop :: goint
  Stock_Pos :: goint
  Stock_Stack :: "string list"
  Tableau_Stacks :: "string list list"
  Tableau_Facedown :: "goint list"
  Foundations :: "string \<rightharpoonup> string list"

text \<open>What \<^verbatim>\<open>new(SaveData)\<close> allocates: every field at its zero value.\<close>

definition zeroSaveData :: SaveData where
  "zeroSaveData =
     \<lparr>Stock_Limit = 0, Stock_Loop = 0, Stock_Pos = 0, Stock_Stack = [],
      Tableau_Stacks = [], Tableau_Facedown = [], Foundations = Map.empty\<rparr>"

text \<open>Modelled from the spec: the declaration of \<^verbatim>\<open>Game\<close> is missing. It holds the stock
  (three scalars and a card sequence), a tableau of fixed capacity 7 (a card sequence and
  a facedown count per slot) and one card sequence per suit. A foundation that was never
  assigned reads as the empty sequence.\<close>

record Game =
  game_Stock_Limit :: goint
  game_Stock_Loop :: goint
  game_Stock_Pos :: goint
  game_Stock_Stack :: "Card list"
  game_Tableau_Stacks :: "Card list list"
  game_Tableau_Facedown :: "goint list"
  game_Foundations :: "CardSuit \<Rightarrow> Card list"

definition tableauCapacity :: "Game \<Rightarrow> bool" where
  "tableauCapacity g =
     (length (game_Tableau_Stacks g) = 7 \<and> length (game_Tableau_Facedown g) = 7)"

text \<open>Modelled from the spec: a game nothing has been written to.\<close>

definition emptyGame :: Game where
  "emptyGame =
     \<lparr>game_Stock_Limit = 0, game_Stock_Loop = 0, game_Stock_Pos = 0, game_Stock_Stack = [],
      game_Tableau_Stacks = replicate 7 [], game_Tableau_Facedown = replicate 7 0,
      game_Foundations = (\<lambda>_. [])\<rparr>"

section \<open>LoadFile\<close>

text \<open>\<^verbatim>\<open>filepath.Ext\<close> of the standard library, with \<^verbatim>\<open>/\<close> as the path separator: scan
  from the end, stop at a separator, return the suffix that starts at the first dot
  met. \<open>extScan\<close> walks the reversed path and keeps the suffix passed so far.\<close>

fun extScan :: "string \<Rightarrow> string \<Rightarrow> string" where
  "extScan [] suffix = []"
| "extScan (c # cs) suffix =
     (if c = CHR ''/'' then []
      else if c = CHR ''.'' then c # suffix
      else extScan cs (c # suffix))"

definition Ext :: "string \<Rightarrow> string" where
  "Ext path = extScan (rev path) []"

text \<open>
  \<^verbatim>\<open>LoadFile\<close>. The file system and the two decoders are parameters: \<open>os_Open\<close> and
  \<open>io_ReadAll\<close> return an error or a value, a decoder returns an error or the document it
  filled in. The \<^verbatim>\<open>switch\<close> has the two cases of the source and no default, so
  \<^verbatim>\<open>unmarsherr\<close> stays nil and \<^verbatim>\<open>save\<close> stays as allocated for any other extension.
\<close>

definition LoadFile ::
  "(string \<Rightarrow> error + 'f) \<Rightarrow> ('f \<Rightarrow> error + string) \<Rightarrow>
   (string \<Rightarrow> SaveData \<Rightarrow> error + SaveData) \<Rightarrow> (string \<Rightarrow> SaveData \<Rightarrow> error + SaveData) \<Rightarrow>
   string \<Rightarrow> error + SaveData" where
  "LoadFile os_Open io_ReadAll json_Unmarshal toml_Unmarshal path =
     (let save = zeroSaveData in
      case os_Open path of
        Inl openerr \<Rightarrow> Inl openerr
      | Inr file \<Rightarrow>
          (case io_ReadAll file of
             Inl readerr \<Rightarrow> Inl readerr
           | Inr contents \<Rightarrow>
               let ext = Ext path in
               if ext = ''.json'' then json_Unmarshal contents save
               else if ext = ''.toml'' then toml_Unmarshal contents save
               else Inr save))"

section \<open>Import\<close>

text \<open>The stock: three scalars copied, then the stack registered.\<close>

definition ImportStock ::
  "codec \<Rightarrow> SaveData \<Rightarrow> Register \<Rightarrow> Game \<Rightarrow> Register \<times> Game \<times> error option" where
  "ImportStock ParseCard save r game =
     (let game1 = game\<lparr>game_Stock_Limit := Stock_Limit save,
                        game_Stock_Loop := Stock_Loop save,
                        game_Stock_Pos := Stock_Pos save\<rparr>
      in case AddCards ParseCard r (Stock_Stack save) of
           (r', Inl err) \<Rightarrow> (r', game1, Some err)
         | (r', Inr stack) \<Rightarrow> (r', game1\<lparr>game_Stock_Stack := stack\<rparr>, None))"

text \<open>
  The loop over \<^verbatim>\<open>save.Tableau.Stacks\<close>, from index \<open>i\<close> on. \<open>fds\<close> is
  \<^verbatim>\<open>save.Tableau.Facedown\<close>, which has the length of the stacks when the loop is entered;
  \<open>fdTotal\<close> is the running sum, a Go \<^verbatim>\<open>int\<close>, and is returned with the state. The
  comparison \<^verbatim>\<open>facedown >= len(codes)\<close> is signed. The loop runs after the check that
  there are at most 7 stacks, so \<open>i\<close> stays within the 7 slots of the game's tableau.
\<close>

fun TableauLoop ::
  "codec \<Rightarrow> goint list \<Rightarrow> nat \<Rightarrow> string list list \<Rightarrow> Register \<Rightarrow> Game \<Rightarrow> goint \<Rightarrow>
   Register \<times> Game \<times> goint \<times> error option" where
  "TableauLoop ParseCard fds i [] r game fdTotal = (r, game, fdTotal, None)"
| "TableauLoop ParseCard fds i (codes # rest) r game fdTotal =
     (let facedown = fds ! i;
          fdTotal1 = fdTotal + facedown
      in if sint facedown \<ge> int (length codes)
         then (r, game, fdTotal1, Some (TopCardFacedown i (length codes) facedown))
         else (case AddCards ParseCard r codes of
                 (r', Inl err) \<Rightarrow> (r', game, fdTotal1, Some err)
               | (r', Inr stack) \<Rightarrow>
                   TableauLoop ParseCard fds (Suc i) rest r'
                     (game\<lparr>game_Tableau_Stacks := (game_Tableau_Stacks game)[i := stack],
                           game_Tableau_Facedown := (game_Tableau_Facedown game)[i := facedown]\<rparr>)
                     fdTotal1))"

definition ImportTableau ::
  "codec \<Rightarrow> SaveData \<Rightarrow> Register \<Rightarrow> Game \<Rightarrow> Register \<times> Game \<times> error option" where
  "ImportTableau ParseCard save r game =
     (let tbSize = length (Tableau_Stacks save) in
      if tbSize > 7 then (r, game, Some (TooManyStacks tbSize))
      else if length (Tableau_Facedown save) \<noteq> tbSize then (r, game, Some LengthMismatch)
      else (case TableauLoop ParseCard (Tableau_Facedown save) 0 (Tableau_Stacks save) r game 0 of
              (r', game', fdTotal, Some err) \<Rightarrow> (r', game', Some err)
            | (r', game', fdTotal, None) \<Rightarrow>
                if sint fdTotal > 21 then (r', game', Some (TooManyFacedown fdTotal))
                else (r', game', None)))"

text \<open>The \<^verbatim>\<open>switch\<close> on the foundation key; \<open>None\<close> is its \<^verbatim>\<open>default\<close> branch.\<close>

definition suitOfKey :: "string \<Rightarrow> CardSuit option" where
  "suitOfKey key =
     (if key = ''spades'' then Some SPADES
      else if key = ''clubs'' then Some CLUBS
      else if key = ''hearts'' then Some HEARTS
      else if key = ''diamonds'' then Some DIAMONDS
      else None)"

text \<open>The inner loop over the codes of one foundation, from index \<open>i\<close> on.\<close>

fun FoundationCards ::
  "codec \<Rightarrow> string \<Rightarrow> CardSuit \<Rightarrow> nat \<Rightarrow> Register \<Rightarrow> string list \<Rightarrow>
   Register \<times> (error + Card list)" where
  "FoundationCards ParseCard key suit i r [] = (r, Inr [])"
| "FoundationCards ParseCard key suit i r (code # codes) =
     (case AddCard ParseCard r code of
        (r', Inl err) \<Rightarrow> (r', Inl err)
      | (r', Inr crd) \<Rightarrow>
          if Suit crd = suit
          then (case FoundationCards ParseCard key suit (Suc i) r' codes of
                  (r'', Inl err) \<Rightarrow> (r'', Inl err)
                | (r'', Inr stack) \<Rightarrow> (r'', Inr (crd # stack)))
          else (r', Inl (SuitMismatchError key code i)))"

text \<open>
  The loop \<^verbatim>\<open>for key, codes := range save.Foundations\<close>. Go leaves the order in which
  \<^verbatim>\<open>range\<close> visits a map unspecified, and it differs between runs; the sequence of
  entries of one run is the argument \<open>visit\<close>.
\<close>

fun ImportFoundations ::
  "codec \<Rightarrow> (string \<times> string list) list \<Rightarrow> Register \<Rightarrow> Game \<Rightarrow>
   Register \<times> Game \<times> error option" where
  "ImportFoundations ParseCard [] r game = (r, game, None)"
| "ImportFoundations ParseCard ((key, codes) # rest) r game =
     (case suitOfKey key of
        None \<Rightarrow> (r, game, Some (UnrecognizedFoundationError key))
      | Some suit \<Rightarrow>
          (case FoundationCards ParseCard key suit 0 r codes of
             (r', Inl err) \<Rightarrow> (r', game, Some err)
           | (r', Inr stack) \<Rightarrow>
               ImportFoundations ParseCard rest r'
                 (game\<lparr>game_Foundations := (game_Foundations game)(suit := stack)\<rparr>)))"

text \<open>A sequence of entries is one that \<^verbatim>\<open>range\<close> can produce for the map \<open>m\<close> when it
  holds every entry of \<open>m\<close> exactly once.\<close>

definition rangeOf :: "(string \<rightharpoonup> string list) \<Rightarrow> (string \<times> string list) list \<Rightarrow> bool" where
  "rangeOf m visit = (distinct (map fst visit) \<and> map_of visit = m)"

text \<open>
  \<^verbatim>\<open>Game.Import\<close>. The result is the register as the call leaves it, the game as
  mutated so far, and the returned error (\<open>None\<close> is \<^verbatim>\<open>nil\<close>). \<open>ImportSteps\<close> is the
  body up to the final check of the total.
\<close>

definition ImportSteps ::
  "codec \<Rightarrow> (string \<times> string list) list \<Rightarrow> SaveData \<Rightarrow> Game \<Rightarrow>
   Register \<times> Game \<times> error option" where
  "ImportSteps ParseCard visit save game =
     (case ImportStock ParseCard save NewRegister game of
        (r1, game1, Some err) \<Rightarrow> (r1, game1, Some err)
      | (r1, game1, None) \<Rightarrow>
          (case ImportTableau ParseCard save r1 game1 of
             (r2, game2, Some err) \<Rightarrow> (r2, game2, Some err)
           | (r2, game2, None) \<Rightarrow> ImportFoundations ParseCard visit r2 game2))"

definition Import ::
  "codec \<Rightarrow> (string \<times> string list) list \<Rightarrow> SaveData \<Rightarrow> Game \<Rightarrow>
   Register \<times> Game \<times> error option" where
  "Import ParseCard visit save game =
     (case ImportSteps ParseCard visit save game of
        (r, game', Some err) \<Rightarrow> (r, game', Some err)
      | (r, game', None) \<Rightarrow>
          if Total r \<noteq> 52 then (r, game', Some (IncompleteDeckError (Total r)))
          else (r, game', None))"

section \<open>A sample codec\<close>

text \<open>
  One instance of the codec parameter, used for the concrete instances below: a code is
  a rank letter and a suit letter; a third character \<^verbatim>\<open>?\<close> marks a wildcard. The identity
  of a card is its code.
\<close>

definition rankOfChar :: "char \<Rightarrow> CardRank option" where
  "rankOfChar = map_of
     [(CHR ''A'', ACE), (CHR ''2'', TWO), (CHR ''3'', THREE), (CHR ''4'', FOUR),
      (CHR ''5'', FIVE), (CHR ''6'', SIX), (CHR ''7'', SEVEN), (CHR ''8'', EIGHT),
      (CHR ''9'', NINE), (CHR ''T'', TEN), (CHR ''J'', JACK), (CHR ''Q'', QUEEN),
      (CHR ''K'', KING)]"

definition suitOfChar :: "char \<Rightarrow> CardSuit option" where
  "suitOfChar = map_of
     [(CHR ''S'', SPADES), (CHR ''C'', CLUBS), (CHR ''H'', HEARTS), (CHR ''D'', DIAMONDS)]"

definition sampleCard :: "string \<Rightarrow> char \<Rightarrow> char \<Rightarrow> string + Card" where
  "sampleCard code rc sc =
     (case (rankOfChar rc, suitOfChar sc) of
        (Some k, Some s) \<Rightarrow> Inr \<lparr>Suit = s, Rank = k, CardId = code\<rparr>
      | _ \<Rightarrow> Inl code)"

fun sampleCodec :: codec where
  "sampleCodec [rc, sc] = sampleCard [rc, sc] rc sc"
| "sampleCodec [rc, sc, m] =
     (if m = CHR ''?'' then sampleCard [rc, sc, m] rc sc else Inl [rc, sc, m])"
| "sampleCodec code = Inl code"

section \<open>Auxiliary definitions for the proofs\<close>

text \<open>The register after the three counting steps of \<open>AddCard\<close>, the violations they
  record, and the register after the identity was marked as seen.\<close>

definition counted :: "Card \<Rightarrow> Register \<Rightarrow> Register" where
  "counted c r = fst (countRank (Rank c) (fst (countSuit (Suit c) (fst (countTotal r)))))"

definition violations :: "Card \<Rightarrow> Register \<Rightarrow> violation list" where
  "violations c r =
     snd (countTotal r) @ snd (countSuit (Suit c) (fst (countTotal r)))
       @ snd (countRank (Rank c) (fst (countSuit (Suit c) (fst (countTotal r)))))"

definition seenAdd :: "Card \<Rightarrow> Register \<Rightarrow> Register" where
  "seenAdd c r =
     (if \<not> isWildcardId (CardId c) then r\<lparr>Cards := insert (CardId c) (Cards r)\<rparr> else r)"

text \<open>A count read from one of the register's maps: an absent key counts as 0.\<close>

definition getCount :: "('k \<rightharpoonup> int) \<Rightarrow> 'k \<Rightarrow> int" where
  "getCount m k = (case m k of None \<Rightarrow> 0 | Some n \<Rightarrow> n)"

section \<open>Concrete instances\<close>

text \<open>A file system in which every path opens and reads, and a decoder that rejects
  everything.\<close>

definition sampleOpen :: "string \<Rightarrow> error + string" where
  "sampleOpen path = Inr path"

definition sampleReadAll :: "string \<Rightarrow> error + string" where
  "sampleReadAll file = Inr ''[stock]''"

definition sampleUnmarshal :: "string \<Rightarrow> SaveData \<Rightarrow> error + SaveData" where
  "sampleUnmarshal contents save = Inl (DecodeError contents)"

text \<open>A register that has accepted four wildcard aces, one of each suit.\<close>

definition fourAces :: Register where
  "fourAces = fst (AddCards sampleCodec NewRegister [''AS?'', ''AH?'', ''AC?'', ''AD?''])"

text \<open>The register after the ace of spades was then refused (a fifth ace).\<close>

definition fifthAce :: Register where
  "fifthAce = fst (AddCard sampleCodec fourAces ''AS'')"

text \<open>A register that has accepted the thirteen spades, and one that has accepted a
  whole deck.\<close>

definition thirteenSpades :: Register where
  "thirteenSpades =
     fst (AddCards sampleCodec NewRegister
            [''AS'', ''2S'', ''3S'', ''4S'', ''5S'', ''6S'', ''7S'', ''8S'', ''9S'', ''TS'', ''JS'',
             ''QS'', ''KS''])"

definition wholeDeck :: Register where
  "wholeDeck =
     fst (AddCards sampleCodec NewRegister
            [''AS'', ''2S'', ''3S'', ''4S'', ''5S'', ''6S'', ''7S'', ''8S'', ''9S'', ''TS'', ''JS'',
             ''QS'', ''KS'', ''AC'', ''2C'', ''3C'', ''4C'', ''5C'', ''6C'', ''7C'', ''8C'', ''9C'',
             ''TC'', ''JC'', ''QC'', ''KC'', ''AH'', ''2H'', ''3H'', ''4H'', ''5H'', ''6H'', ''7H'',
             ''8H'', ''9H'', ''TH'', ''JH'', ''QH'', ''KH'', ''AD'', ''2D'', ''3D'', ''4D'', ''5D'',
             ''6D'', ''7D'', ''8D'', ''9D'', ''TD'', ''JD'', ''QD'', ''KD''])"

section \<open>What a successful registration amounts to\<close>

text \<open>The identities of the non-wildcard cards of a list, and the number of its cards of
  one suit or of one rank.\<close>

definition nonWildIds :: "Card list \<Rightarrow> string list" where
  "nonWildIds cs = filter (\<lambda>ident. \<not> isWildcardId ident) (map CardId cs)"

definition suitCount :: "CardSuit \<Rightarrow> Card list \<Rightarrow> nat" where
  "suitCount s cs = length (filter (\<lambda>c. Suit c = s) cs)"

definition rankCount :: "CardRank \<Rightarrow> Card list \<Rightarrow> nat" where
  "rankCount k cs = length (filter (\<lambda>c. Rank c = k) cs)"

text \<open>
  The cards \<open>cs\<close> fit into the register \<open>r\<close>: their non-wildcard identities are new and
  pairwise distinct, and neither the total nor the count of a suit or a rank they touch
  ends above its limit.
\<close>

definition fits :: "Register \<Rightarrow> Card list \<Rightarrow> bool" where
  "fits r cs =
     (distinct (nonWildIds cs) \<and> set (nonWildIds cs) \<inter> Cards r = {}
      \<and> (cs \<noteq> [] \<longrightarrow> Total r + int (length cs) \<le> 52)
      \<and> (\<forall>s. 0 < suitCount s cs \<longrightarrow> getCount (Suits r) s + int (suitCount s cs) \<le> 13)
      \<and> (\<forall>k. 0 < rankCount k cs \<longrightarrow> getCount (Ranks r) k + int (rankCount k cs) \<le> 4))"

text \<open>The cards that a list of codes parses to (used where every code parses).\<close>

definition cardsOf :: "codec \<Rightarrow> string list \<Rightarrow> Card list" where
  "cardsOf ParseCard codes = map (\<lambda>code. projr (ParseCard code)) codes"

definition allParse :: "codec \<Rightarrow> string list \<Rightarrow> bool" where
  "allParse ParseCard codes = list_all (\<lambda>code. \<not> isl (ParseCard code)) codes"

text \<open>The condition under which \<open>AddCard\<close> accepts the card \<open>c\<close> in the register \<open>r\<close>.\<close>

definition stepOK :: "Register \<Rightarrow> Card \<Rightarrow> bool" where
  "stepOK r c = ((isWildcardId (CardId c) \<or> CardId c \<notin> Cards r)
     \<and> Total r + 1 \<le> 52 \<and> getCount (Suits r) (Suit c) + 1 \<le> 13
     \<and> getCount (Ranks r) (Rank c) + 1 \<le> 4)"

text \<open>A list of cards that one fresh register accepts: a part of one deck.\<close>

definition oneDeck :: "Card list \<Rightarrow> bool" where
  "oneDeck cs =
     (distinct (nonWildIds cs) \<and> length cs \<le> 52
      \<and> (\<forall>s. suitCount s cs \<le> 13) \<and> (\<forall>k. rankCount k cs \<le> 4))"

text \<open>The game after the tableau loop has run over \<open>stacks\<close> from slot \<open>i\<close> on without
  an error, the sum of the facedown values it has added up, and the game after the
  foundations loop has run over \<open>visit\<close> without an error.\<close>

fun tableauFill :: "codec \<Rightarrow> goint list \<Rightarrow> nat \<Rightarrow> string list list \<Rightarrow> Game \<Rightarrow> Game" where
  "tableauFill ParseCard fds i [] game = game"
| "tableauFill ParseCard fds i (codes # rest) game =
     tableauFill ParseCard fds (Suc i) rest
       (game\<lparr>game_Tableau_Stacks := (game_Tableau_Stacks game)[i := cardsOf ParseCard codes],
             game_Tableau_Facedown := (game_Tableau_Facedown game)[i := fds ! i]\<rparr>)"

definition facedownSum :: "goint list \<Rightarrow> nat \<Rightarrow> nat \<Rightarrow> goint" where
  "facedownSum fds i n = sum_list (map (\<lambda>j. fds ! j) [i..<i + n])"

fun foundationsFill :: "codec \<Rightarrow> (string \<times> string list) list \<Rightarrow> Game \<Rightarrow> Game" where
  "foundationsFill ParseCard [] game = game"
| "foundationsFill ParseCard ((key, codes) # rest) game =
     foundationsFill ParseCard rest
       (game\<lparr>game_Foundations :=
               (game_Foundations game)(the (suitOfKey key) := cardsOf ParseCard codes)\<rparr>)"

text \<open>Every stack's facedown value is below the stack's length (compared as signed
  integers), from slot \<open>i\<close> on.\<close>

fun topsFaceUp :: "goint list \<Rightarrow> nat \<Rightarrow> string list list \<Rightarrow> bool" where
  "topsFaceUp fds i [] = True"
| "topsFaceUp fds i (codes # rest) =
     (sint (fds ! i) < int (length codes) \<and> topsFaceUp fds (Suc i) rest)"

text \<open>Every code of the list that parses gives a card of the suit; and: the key of a
  visited foundation entry is one of the four names and its codes match that suit.\<close>

definition suitsMatch :: "codec \<Rightarrow> CardSuit \<Rightarrow> string list \<Rightarrow> bool" where
  "suitsMatch ParseCard suit codes =
     list_all (\<lambda>code. case ParseCard code of Inl err \<Rightarrow> True | Inr c \<Rightarrow> Suit c = suit) codes"

definition foundationOK :: "codec \<Rightarrow> string \<times> string list \<Rightarrow> bool" where
  "foundationOK ParseCard entry =
     (case suitOfKey (fst entry) of
        None \<Rightarrow> False
      | Some suit \<Rightarrow> suitsMatch ParseCard suit (snd entry))"

text \<open>All the codes of a document, in the order in which \<open>Import\<close> registers them.\<close>

definition docCodes :: "SaveData \<Rightarrow> (string \<times> string list) list \<Rightarrow> string list" where
  "docCodes save visit =
     Stock_Stack save @ concat (Tableau_Stacks save) @ concat (map snd visit)"

text \<open>The game after the stock was written, the game after a whole import without an
  error, and the checks on the shape of the tableau.\<close>

definition stockFill :: "codec \<Rightarrow> SaveData \<Rightarrow> Game \<Rightarrow> Game" where
  "stockFill ParseCard save game =
     game\<lparr>game_Stock_Limit := Stock_Limit save, game_Stock_Loop := Stock_Loop save,
          game_Stock_Pos := Stock_Pos save,
          game_Stock_Stack := cardsOf ParseCard (Stock_Stack save)\<rparr>"

definition importedGame :: "codec \<Rightarrow> (string \<times> string list) list \<Rightarrow> SaveData \<Rightarrow> Game \<Rightarrow> Game" where
  "importedGame ParseCard visit save game =
     foundationsFill ParseCard visit
       (tableauFill ParseCard (Tableau_Facedown save) 0 (Tableau_Stacks save)
          (stockFill ParseCard save game))"

definition tableauChecks :: "SaveData \<Rightarrow> bool" where
  "tableauChecks save =
     (length (Tableau_Stacks save) \<le> 7
      \<and> length (Tableau_Facedown save) = length (Tableau_Stacks save)
      \<and> topsFaceUp (Tableau_Facedown save) 0 (Tableau_Stacks save))"

text \<open>The error of a registration, as \<open>Import\<close> returns it.\<close>

definition errorOf :: "error + 'a \<Rightarrow> error option" where
  "errorOf res = (case res of Inl err \<Rightarrow> Some err | Inr x \<Rightarrow> None)"

text \<open>The suit that the foundations loop assigns for an entry whose key is a suit
  name.\<close>

definition suitOfEntry :: "string \<times> string list \<Rightarrow> CardSuit" where
  "suitOfEntry entry = the (suitOfKey (fst entry))"

section \<open>Concrete documents\<close>

text \<open>A full deck: 24 codes in the stock, seven stacks of four with three cards face
  down each, no foundations.\<close>

definition deck52 :: SaveData where
  "deck52 =
     \<lparr>Stock_Limit = 3, Stock_Loop = 0, Stock_Pos = 0,
      Stock_Stack =
        [''AS'', ''2S'', ''3S'', ''4S'', ''5S'', ''6S'', ''7S'', ''8S'', ''9S'', ''TS'', ''JS'', ''QS'',
         ''KS'', ''AC'', ''2C'', ''3C'', ''4C'', ''5C'', ''6C'', ''7C'', ''8C'', ''9C'', ''TC'', ''JC''],
      Tableau_Stacks =
        [[''QC'', ''KC'', ''AH'', ''2H''], [''3H'', ''4H'', ''5H'', ''6H''],
         [''7H'', ''8H'', ''9H'', ''TH''], [''JH'', ''QH'', ''KH'', ''AD''],
         [''2D'', ''3D'', ''4D'', ''5D''], [''6D'', ''7D'', ''8D'', ''9D''],
         [''TD'', ''JD'', ''QD'', ''KD'']],
      Tableau_Facedown = [3, 3, 3, 3, 3, 3, 3],
      Foundations = Map.empty\<rparr>"

text \<open>The same document without the last card of the stock: 51 cards.\<close>

definition deck51 :: SaveData where
  "deck51 = deck52\<lparr>Stock_Stack := butlast (Stock_Stack deck52)\<rparr>"

text \<open>Seven stacks, each with its top card face up, and 22 cards face down: an empty
  stock and 29 cards in the tableau.\<close>

definition facedown22 :: SaveData where
  "facedown22 =
     \<lparr>Stock_Limit = 3, Stock_Loop = 0, Stock_Pos = 0,
      Stock_Stack = [],
      Tableau_Stacks =
        [[''AH'', ''2H'', ''3H'', ''4H'', ''5H''], [''6H'', ''7H'', ''8H'', ''9H''],
         [''TH'', ''JH'', ''QH'', ''KH''], [''AD'', ''2D'', ''3D'', ''4D''],
         [''5D'', ''6D'', ''7D'', ''8D''], [''9D'', ''TD'', ''JD'', ''QD''],
         [''KD'', ''AS'', ''2S'', ''3S'']],
      Tableau_Facedown = [4, 3, 3, 3, 3, 3, 3],
      Foundations = Map.empty\<rparr>"

text \<open>The same tableau behind a stock whose only code does not parse.\<close>

definition facedown22BadStock :: SaveData where
  "facedown22BadStock = facedown22\<lparr>Stock_Stack := [''XX'']\<rparr>"

text \<open>A full deck whose seventh stack is empty and marked with \<open>-1\<close> cards face down.\<close>

definition negativeFacedown :: SaveData where
  "negativeFacedown =
     \<lparr>Stock_Limit = 3, Stock_Loop = 0, Stock_Pos = 0,
      Stock_Stack =
        [''AS'', ''2S'', ''3S'', ''4S'', ''5S'', ''6S'', ''7S'', ''8S'', ''9S'', ''TS'', ''JS'', ''QS'',
         ''KS'', ''AC'', ''2C'', ''3C'', ''4C'', ''5C'', ''6C'', ''7C'', ''8C'', ''9C'', ''TC'', ''JC'',
         ''TD'', ''JD'', ''QD'', ''KD''],
      Tableau_Stacks =
        [[''QC'', ''KC'', ''AH'', ''2H''], [''3H'', ''4H'', ''5H'', ''6H''],
         [''7H'', ''8H'', ''9H'', ''TH''], [''JH'', ''QH'', ''KH'', ''AD''],
         [''2D'', ''3D'', ''4D'', ''5D''], [''6D'', ''7D'', ''8D'', ''9D''],
         []],
      Tableau_Facedown = [3, 3, 3, 3, 3, 3, - 1],
      Foundations = Map.empty\<rparr>"

text \<open>Eight stacks, each holding the ace of spades.\<close>

definition eightStacks :: SaveData where
  "eightStacks =
     \<lparr>Stock_Limit = 3, Stock_Loop = 0, Stock_Pos = 0,
      Stock_Stack = [],
      Tableau_Stacks =
        [[''AS''], [''AS''], [''AS''], [''AS''], [''AS''], [''AS''], [''AS''], [''AS'']],
      Tableau_Facedown = [0, 0, 0, 0, 0, 0, 0, 0],
      Foundations = Map.empty\<rparr>"

text \<open>Two foundations, each with a code that does not parse, and the two orders in
  which \<^verbatim>\<open>range\<close> can visit them.\<close>

definition twoBadCodes :: SaveData where
  "twoBadCodes =
     \<lparr>Stock_Limit = 3, Stock_Loop = 0, Stock_Pos = 0,
      Stock_Stack = [], Tableau_Stacks = [], Tableau_Facedown = [],
      Foundations = [''spades'' \<mapsto> [''XX''], ''hearts'' \<mapsto> [''YY'']]\<rparr>"

definition badSpadesFirst :: "(string \<times> string list) list" where
  "badSpadesFirst = [(''spades'', [''XX'']), (''hearts'', [''YY''])]"

definition badHeartsFirst :: "(string \<times> string list) list" where
  "badHeartsFirst = [(''hearts'', [''YY'']), (''spades'', [''XX''])]"

text \<open>A full deck with two foundations started, and the two orders of its entries.\<close>

definition twoFoundations :: SaveData where
  "twoFoundations =
     \<lparr>Stock_Limit = 3, Stock_Loop = 0, Stock_Pos = 0,
      Stock_Stack =
        [''3S'', ''4S'', ''5S'', ''6S'', ''7S'', ''8S'', ''9S'', ''TS'', ''JS'', ''QS'',
         ''KS'', ''AC'', ''2C'', ''3C'', ''4C'', ''5C'', ''6C'', ''7C'', ''8C'', ''9C'', ''TC'', ''JC''],
      Tableau_Stacks =
        [[''QC'', ''KC'', ''2H''], [''3H'', ''4H'', ''5H'', ''6H''],
         [''7H'', ''8H'', ''9H'', ''TH''], [''JH'', ''QH'', ''KH'', ''AD''],
         [''2D'', ''3D'', ''4D'', ''5D''], [''6D'', ''7D'', ''8D'', ''9D''],
         [''TD'', ''JD'', ''QD'', ''KD'']],
      Tableau_Facedown = [2, 3, 3, 3, 3, 3, 3],
      Foundations = [''spades'' \<mapsto> [''AS'', ''2S''], ''hearts'' \<mapsto> [''AH'']]\<rparr>"

definition spadesFirst :: "(string \<times> string list) list" where
  "spadesFirst = [(''spades'', [''AS'', ''2S'']), (''hearts'', [''AH''])]"

definition heartsFirst :: "(string \<times> string list) list" where
  "heartsFirst = [(''hearts'', [''AH'']), (''spades'', [''AS'', ''2S''])]"

text \<open>The ace of spades in the stock and again in a tableau stack.\<close>

definition aceTwice :: SaveData where
  "aceTwice =
     \<lparr>Stock_Limit = 3, Stock_Loop = 0, Stock_Pos = 0,
      Stock_Stack = [''AS'', ''2S''],
      Tableau_Stacks = [[''3S'', ''AS'']],
      Tableau_Facedown = [1],
      Foundations = Map.empty\<rparr>"

text \<open>A register that has accepted one wildcard ace of spades.\<close>

definition oneWildAce :: Register where
  "oneWildAce = fst (AddCard sampleCodec NewRegister ''AS?'')"

section \<open>AddCard, step by step\<close>

lemma countTotal_simps:
  "fst (countTotal r) = r\<lparr>Total := (if Total r + 1 > 52 then Total r else Total r + 1)\<rparr>"
  "snd (countTotal r) = (if Total r + 1 > 52 then [TooManyCards] else [])"
  by (simp_all add: countTotal_def Let_def)

lemma countSuit_simps:
  "fst (countSuit s r) =
     r\<lparr>Suits := (Suits r)(s \<mapsto> (case Suits r s of Some n \<Rightarrow> n + 1 | None \<Rightarrow> 1))\<rparr>"
  "snd (countSuit s r) =
     (case Suits r s of Some n \<Rightarrow> if n + 1 > 13 then [TooManySuit s] else [] | None \<Rightarrow> [])"
  by (simp_all add: countSuit_def Let_def split: option.splits)

lemma countRank_simps:
  "fst (countRank k r) =
     r\<lparr>Ranks := (Ranks r)(k \<mapsto> (case Ranks r k of Some n \<Rightarrow> n + 1 | None \<Rightarrow> 1))\<rparr>"
  "snd (countRank k r) =
     (case Ranks r k of Some n \<Rightarrow> if n + 1 > 4 then [TooManyRank k] else [] | None \<Rightarrow> [])"
  by (simp_all add: countRank_def Let_def split: option.splits)

lemma AddCard_unfold:
  "AddCard p r code =
     (case p code of
        Inl err \<Rightarrow> (r, Inl (ParseError err))
      | Inr c \<Rightarrow>
          if \<not> isWildcardId (CardId c) \<and> CardId c \<in> Cards r then (r, Inl DuplicateCardError)
          else (counted c (seenAdd c r),
                if violations c (seenAdd c r) = [] then Inr c
                else Inl (OverflowError (violations c (seenAdd c r)))))"
  by (simp add: AddCard_def counted_def violations_def seenAdd_def Let_def split_beta
      split: sum.splits)

lemma counted_fields:
  "Cards (counted c r) = Cards r"
  "Total (counted c r) = (if Total r + 1 > 52 then Total r else Total r + 1)"
  "Suits (counted c r) =
     (Suits r)(Suit c \<mapsto> (case Suits r (Suit c) of Some n \<Rightarrow> n + 1 | None \<Rightarrow> 1))"
  "Ranks (counted c r) =
     (Ranks r)(Rank c \<mapsto> (case Ranks r (Rank c) of Some n \<Rightarrow> n + 1 | None \<Rightarrow> 1))"
  by (simp_all add: counted_def countTotal_simps countSuit_simps countRank_simps)

lemma seenAdd_fields:
  "Cards (seenAdd c r) =
     (if isWildcardId (CardId c) then Cards r else insert (CardId c) (Cards r))"
  "Total (seenAdd c r) = Total r"
  "Suits (seenAdd c r) = Suits r"
  "Ranks (seenAdd c r) = Ranks r"
  by (simp_all add: seenAdd_def)

lemma violations_eq:
  "violations c r =
     (if Total r + 1 > 52 then [TooManyCards] else [])
     @ (case Suits r (Suit c) of
          Some n \<Rightarrow> if n + 1 > 13 then [TooManySuit (Suit c)] else [] | None \<Rightarrow> [])
     @ (case Ranks r (Rank c) of
          Some n \<Rightarrow> if n + 1 > 4 then [TooManyRank (Rank c)] else [] | None \<Rightarrow> [])"
  by (simp add: violations_def countTotal_simps countSuit_simps countRank_simps)

lemmas sample_defs =
  sampleCard_def rankOfChar_def suitOfChar_def isWildcardId_def NewRegister_def

lemmas AddCard_eval =
  AddCard_def countTotal_def countSuit_def countRank_def Let_def

section \<open>LoadFile and unrecognized extensions\<close>

text \<open>
  C1, as stated, fails: for the readable file \<^verbatim>\<open>game.txt\<close>, whose extension is neither
  \<^verbatim>\<open>.json\<close> nor \<^verbatim>\<open>.toml\<close>, \<open>LoadFile\<close> returns the zero-valued document and no error.
\<close>

theorem C1_counterexample:
  "LoadFile sampleOpen sampleReadAll sampleUnmarshal sampleUnmarshal ''game.txt''
     = Inr zeroSaveData"
  by (simp add: LoadFile_def sampleOpen_def sampleReadAll_def Ext_def Let_def)

text \<open>
  C1, amended: when \<open>LoadFile\<close> is called on a readable file whose extension is neither
  \<^verbatim>\<open>.json\<close> nor \<^verbatim>\<open>.toml\<close>, no decoder runs and the call returns the zero-valued
  document with no error, whatever the file holds; \<open>Import\<close> of that document then fails
  with \<open>IncompleteDeckError\<close> reporting 0 cards, for every codec and game.
\<close>

theorem C1_LoadFile_unrecognized_extension:
  assumes "os_Open path = Inr file"
    and "io_ReadAll file = Inr contents"
    and "Ext path \<noteq> ''.json''"
    and "Ext path \<noteq> ''.toml''"
  shows "LoadFile os_Open io_ReadAll json_Unmarshal toml_Unmarshal path = Inr zeroSaveData
         \<and> (rangeOf (Foundations zeroSaveData) visit \<longrightarrow>
              snd (snd (Import ParseCard visit zeroSaveData game))
                = Some (IncompleteDeckError 0))"
proof (intro conjI impI)
  from assms
  show "LoadFile os_Open io_ReadAll json_Unmarshal toml_Unmarshal path = Inr zeroSaveData"
    by (simp add: LoadFile_def Let_def)
next
  assume "rangeOf (Foundations zeroSaveData) visit"
  then have "visit = []"
    by (cases visit) (auto simp: rangeOf_def zeroSaveData_def)
  then show "snd (snd (Import ParseCard visit zeroSaveData game)) = Some (IncompleteDeckError 0)"
    by (simp add: Import_def ImportSteps_def ImportStock_def ImportTableau_def zeroSaveData_def
        NewRegister_def Let_def)
qed

theorem C1_witness:
  "sampleOpen ''saves/game.sav'' = Inr ''saves/game.sav''
   \<and> sampleReadAll ''saves/game.sav'' = Inr ''[stock]''
   \<and> Ext ''saves/game.sav'' \<noteq> ''.json''
   \<and> Ext ''saves/game.sav'' \<noteq> ''.toml''
   \<and> LoadFile sampleOpen sampleReadAll sampleUnmarshal sampleUnmarshal ''saves/game.sav''
       = Inr zeroSaveData
   \<and> rangeOf (Foundations zeroSaveData) []
   \<and> snd (snd (Import sampleCodec [] zeroSaveData emptyGame)) = Some (IncompleteDeckError 0)"
proof -
  have o: "sampleOpen ''saves/game.sav'' = Inr ''saves/game.sav''"
    by (simp add: sampleOpen_def)
  have rd: "sampleReadAll ''saves/game.sav'' = Inr ''[stock]''"
    by (simp add: sampleReadAll_def)
  have j: "Ext ''saves/game.sav'' \<noteq> ''.json''" by (simp add: Ext_def)
  have t: "Ext ''saves/game.sav'' \<noteq> ''.toml''" by (simp add: Ext_def)
  have v: "rangeOf (Foundations zeroSaveData) []"
    by (simp add: rangeOf_def zeroSaveData_def)
  from C1_LoadFile_unrecognized_extension
         [where os_Open = sampleOpen and io_ReadAll = sampleReadAll
            and path = "''saves/game.sav''" and json_Unmarshal = sampleUnmarshal
            and toml_Unmarshal = sampleUnmarshal and visit = "[]"
            and ParseCard = sampleCodec and game = emptyGame, OF o rd j t] v
  have l: "LoadFile sampleOpen sampleReadAll sampleUnmarshal sampleUnmarshal ''saves/game.sav''
             = Inr zeroSaveData"
    and i: "snd (snd (Import sampleCodec [] zeroSaveData emptyGame))
             = Some (IncompleteDeckError 0)"
    by blast+
  from o rd j t l v i show ?thesis by (intro conjI)
qed

section \<open>The register after an overflow\<close>

lemma fourAces_run:
  "AddCards sampleCodec NewRegister [''AS?'', ''AH?'', ''AC?'', ''AD?''] =
     (\<lparr>Cards = {}, Suits = [SPADES \<mapsto> 1, HEARTS \<mapsto> 1, CLUBS \<mapsto> 1, DIAMONDS \<mapsto> 1],
       Ranks = [ACE \<mapsto> 4], Total = 4\<rparr>,
      Inr [\<lparr>Suit = SPADES, Rank = ACE, CardId = ''AS?''\<rparr>,
           \<lparr>Suit = HEARTS, Rank = ACE, CardId = ''AH?''\<rparr>,
           \<lparr>Suit = CLUBS, Rank = ACE, CardId = ''AC?''\<rparr>,
           \<lparr>Suit = DIAMONDS, Rank = ACE, CardId = ''AD?''\<rparr>])"
  by (simp add: AddCard_eval sample_defs fun_upd_twist)

lemma fourAces_eq:
  "fourAces =
     \<lparr>Cards = {}, Suits = [SPADES \<mapsto> 1, HEARTS \<mapsto> 1, CLUBS \<mapsto> 1, DIAMONDS \<mapsto> 1],
      Ranks = [ACE \<mapsto> 4], Total = 4\<rparr>"
  by (simp only: fourAces_def fourAces_run fst_conv)

lemma fifthAce_run:
  "AddCard sampleCodec fourAces ''AS'' =
     (\<lparr>Cards = {''AS''}, Suits = [SPADES \<mapsto> 2, HEARTS \<mapsto> 1, CLUBS \<mapsto> 1, DIAMONDS \<mapsto> 1],
       Ranks = [ACE \<mapsto> 5], Total = 5\<rparr>,
      Inl (OverflowError [TooManyRank ACE]))"
  by (simp add: fourAces_eq AddCard_eval sample_defs fun_upd_twist)

lemma fifthAce_eq:
  "fifthAce =
     \<lparr>Cards = {''AS''}, Suits = [SPADES \<mapsto> 2, HEARTS \<mapsto> 1, CLUBS \<mapsto> 1, DIAMONDS \<mapsto> 1],
      Ranks = [ACE \<mapsto> 5], Total = 5\<rparr>"
  by (simp only: fifthAce_def fifthAce_run fst_conv)

lemma sampleCodec_AS:
  "sampleCodec ''AS'' = Inr \<lparr>Suit = SPADES, Rank = ACE, CardId = ''AS''\<rparr>"
  by (simp add: sample_defs)

lemma sampleCodec_wildAS:
  "sampleCodec ''AS?'' = Inr \<lparr>Suit = SPADES, Rank = ACE, CardId = ''AS?''\<rparr>"
  by (simp add: sample_defs)

lemma AddCard_overflow_Total:
  assumes "AddCard p r code = (r', Inl (OverflowError vs))"
  shows "Total r' = (if TooManyCards \<in> set vs then Total r else Total r + 1)"
  using assms
  by (auto simp: AddCard_unfold counted_fields seenAdd_fields violations_eq
      split: sum.splits if_splits option.splits)

lemma AddCard_overflow_Suit:
  assumes "p code = Inr c" "AddCard p r code = (r', Inl (OverflowError vs))"
  shows "getCount (Suits r') (Suit c) = getCount (Suits r) (Suit c) + 1"
  using assms
  by (auto simp: AddCard_unfold counted_fields seenAdd_fields getCount_def
      split: sum.splits if_splits option.splits)

lemma AddCard_overflow_Rank:
  assumes "p code = Inr c" "AddCard p r code = (r', Inl (OverflowError vs))"
  shows "getCount (Ranks r') (Rank c) = getCount (Ranks r) (Rank c) + 1"
  using assms
  by (auto simp: AddCard_unfold counted_fields seenAdd_fields getCount_def
      split: sum.splits if_splits option.splits)

text \<open>
  The count that made a call fail stays in the map: after a call that recorded "too many
  cards of this rank" the rank's count is above 4, and likewise above 13 for a suit.
\<close>

lemma AddCard_overflow_count_kept:
  assumes "p code = Inr c" "AddCard p r code = (r', Inl (OverflowError vs))"
  shows "TooManyRank (Rank c) \<in> set vs \<Longrightarrow> getCount (Ranks r') (Rank c) > 4"
    and "TooManySuit (Suit c) \<in> set vs \<Longrightarrow> getCount (Suits r') (Suit c) > 13"
  using assms
  by (auto simp: AddCard_unfold counted_fields seenAdd_fields getCount_def violations_eq
      split: sum.splits if_splits option.splits)

text \<open>
  C2 (the code breaks the claim). From a fresh register, four wildcard aces are accepted,
  a fifth ace is refused with "too many ace cards" and leaves the count of aces at 5; the
  next call, for the two of clubs, returns success, and the register then holds a rank
  count of 5, above the limit of 4.
\<close>

theorem C2_rank_count_above_limit:
  "snd (AddCards sampleCodec NewRegister [''AS?'', ''AH?'', ''AC?'', ''AD?'']) =
     Inr [\<lparr>Suit = SPADES, Rank = ACE, CardId = ''AS?''\<rparr>,
          \<lparr>Suit = HEARTS, Rank = ACE, CardId = ''AH?''\<rparr>,
          \<lparr>Suit = CLUBS, Rank = ACE, CardId = ''AC?''\<rparr>,
          \<lparr>Suit = DIAMONDS, Rank = ACE, CardId = ''AD?''\<rparr>]
   \<and> snd (AddCard sampleCodec fourAces ''AS'') = Inl (OverflowError [TooManyRank ACE])
   \<and> snd (AddCard sampleCodec fifthAce ''2C'') = Inr \<lparr>Suit = CLUBS, Rank = TWO, CardId = ''2C''\<rparr>
   \<and> Ranks (fst (AddCard sampleCodec fifthAce ''2C'')) ACE = Some 5"
proof -
  have "AddCard sampleCodec fifthAce ''2C'' =
          (\<lparr>Cards = {''2C'', ''AS''},
            Suits = [SPADES \<mapsto> 2, HEARTS \<mapsto> 1, CLUBS \<mapsto> 2, DIAMONDS \<mapsto> 1],
            Ranks = [ACE \<mapsto> 5, TWO \<mapsto> 1], Total = 6\<rparr>,
           Inr \<lparr>Suit = CLUBS, Rank = TWO, CardId = ''2C''\<rparr>)"
    by (simp add: fifthAce_eq AddCard_eval sample_defs fun_upd_twist)
  then have c: "snd (AddCard sampleCodec fifthAce ''2C'')
                  = Inr \<lparr>Suit = CLUBS, Rank = TWO, CardId = ''2C''\<rparr>"
    and d: "Ranks (fst (AddCard sampleCodec fifthAce ''2C'')) ACE = Some 5"
    by simp_all
  have a: "snd (AddCards sampleCodec NewRegister [''AS?'', ''AH?'', ''AC?'', ''AD?'']) =
     Inr [\<lparr>Suit = SPADES, Rank = ACE, CardId = ''AS?''\<rparr>,
          \<lparr>Suit = HEARTS, Rank = ACE, CardId = ''AH?''\<rparr>,
          \<lparr>Suit = CLUBS, Rank = ACE, CardId = ''AC?''\<rparr>,
          \<lparr>Suit = DIAMONDS, Rank = ACE, CardId = ''AD?''\<rparr>]"
    by (simp only: fourAces_run snd_conv)
  have b: "snd (AddCard sampleCodec fourAces ''AS'') = Inl (OverflowError [TooManyRank ACE])"
    by (simp only: fifthAce_run snd_conv)
  from a b c d show ?thesis by (intro conjI)
qed

text \<open>
  C3, as stated, fails: the fifth ace is refused with an overflow error, and the total,
  the count of spades and the count of aces have all moved from their values before the
  call.
\<close>

theorem C3_counterexample:
  "snd (AddCard sampleCodec fourAces ''AS'') = Inl (OverflowError [TooManyRank ACE])
   \<and> Total fourAces = 4 \<and> Total (fst (AddCard sampleCodec fourAces ''AS'')) = 5
   \<and> Suits fourAces SPADES = Some 1
   \<and> Suits (fst (AddCard sampleCodec fourAces ''AS'')) SPADES = Some 2
   \<and> Ranks fourAces ACE = Some 4
   \<and> Ranks (fst (AddCard sampleCodec fourAces ''AS'')) ACE = Some 5"
  by (simp add: fifthAce_run) (simp add: fourAces_eq)

text \<open>
  C3, amended: when \<open>AddCard\<close> fails with an overflow error, the total is back at its
  value before the call exactly when "too many cards" is among the recorded violations,
  and is one higher otherwise; the count of the card's suit is one higher than before the
  call when the suit is not among the violations, and so is the count of the card's rank
  when the rank is not among them.
\<close>

theorem C3_overflow_rollback:
  assumes "ParseCard code = Inr c"
    and "AddCard ParseCard r code = (r', Inl (OverflowError vs))"
  shows "Total r' = (if TooManyCards \<in> set vs then Total r else Total r + 1)
         \<and> (TooManySuit (Suit c) \<notin> set vs \<longrightarrow>
              getCount (Suits r') (Suit c) = getCount (Suits r) (Suit c) + 1)
         \<and> (TooManyRank (Rank c) \<notin> set vs \<longrightarrow>
              getCount (Ranks r') (Rank c) = getCount (Ranks r) (Rank c) + 1)"
  using AddCard_overflow_Total [OF assms(2)] AddCard_overflow_Suit [OF assms]
    AddCard_overflow_Rank [OF assms]
  by simp

theorem C3_witness:
  "snd (AddCard sampleCodec fourAces ''AS'') = Inl (OverflowError [TooManyRank ACE])
   \<and> Total (fst (AddCard sampleCodec fourAces ''AS'')) = Total fourAces + 1
   \<and> getCount (Suits (fst (AddCard sampleCodec fourAces ''AS''))) SPADES
       = getCount (Suits fourAces) SPADES + 1
   \<and> snd (AddCard sampleCodec thirteenSpades ''AS?'') = Inl (OverflowError [TooManySuit SPADES])
   \<and> Total (fst (AddCard sampleCodec thirteenSpades ''AS?'')) = Total thirteenSpades + 1
   \<and> getCount (Ranks (fst (AddCard sampleCodec thirteenSpades ''AS?''))) ACE
       = getCount (Ranks thirteenSpades) ACE + 1
   \<and> snd (AddCard sampleCodec wholeDeck ''AS?'')
       = Inl (OverflowError [TooManyCards, TooManySuit SPADES, TooManyRank ACE])
   \<and> Total (fst (AddCard sampleCodec wholeDeck ''AS?'')) = Total wholeDeck"
proof -
  have a: "AddCard sampleCodec fourAces ''AS'' =
          (fst (AddCard sampleCodec fourAces ''AS''), Inl (OverflowError [TooManyRank ACE]))"
    by (simp add: fifthAce_run)
  have b: "AddCard sampleCodec thirteenSpades ''AS?'' =
          (fst (AddCard sampleCodec thirteenSpades ''AS?''),
           Inl (OverflowError [TooManySuit SPADES]))"
    by (simp add: thirteenSpades_def AddCard_eval sample_defs)
  have c: "AddCard sampleCodec wholeDeck ''AS?'' =
          (fst (AddCard sampleCodec wholeDeck ''AS?''),
           Inl (OverflowError [TooManyCards, TooManySuit SPADES, TooManyRank ACE]))"
    by (simp add: wholeDeck_def AddCard_eval sample_defs)
  from C3_overflow_rollback [OF sampleCodec_AS a]
  have a1: "Total (fst (AddCard sampleCodec fourAces ''AS'')) = Total fourAces + 1"
    and a2: "getCount (Suits (fst (AddCard sampleCodec fourAces ''AS''))) SPADES
               = getCount (Suits fourAces) SPADES + 1"
    by simp_all
  from C3_overflow_rollback [OF sampleCodec_wildAS b]
  have b1: "Total (fst (AddCard sampleCodec thirteenSpades ''AS?'')) = Total thirteenSpades + 1"
    and b2: "getCount (Ranks (fst (AddCard sampleCodec thirteenSpades ''AS?''))) ACE
               = getCount (Ranks thirteenSpades) ACE + 1"
    by simp_all
  from C3_overflow_rollback [OF sampleCodec_wildAS c]
  have c1: "Total (fst (AddCard sampleCodec wholeDeck ''AS?'')) = Total wholeDeck"
    by simp
  from a b c have e: "snd (AddCard sampleCodec fourAces ''AS'') = Inl (OverflowError [TooManyRank ACE])"
    "snd (AddCard sampleCodec thirteenSpades ''AS?'') = Inl (OverflowError [TooManySuit SPADES])"
    "snd (AddCard sampleCodec wholeDeck ''AS?'')
       = Inl (OverflowError [TooManyCards, TooManySuit SPADES, TooManyRank ACE])"
    by (simp_all add: prod_eq_iff)
  from e a1 a2 b1 b2 c1 show ?thesis by (intro conjI)
qed

text \<open>
  C5: when a call for a non-wildcard code fails with an overflow error, the card's
  identity is in \<open>Cards\<close> afterwards, and the next call with the same code on that
  register fails with \<open>DuplicateCardError\<close> (and leaves the register as it is).
\<close>

theorem C5_overflow_keeps_identity:
  assumes "ParseCard code = Inr c"
    and "\<not> isWildcardId (CardId c)"
    and "snd (AddCard ParseCard r code) = Inl (OverflowError vs)"
  shows "CardId c \<in> Cards (fst (AddCard ParseCard r code))
         \<and> AddCard ParseCard (fst (AddCard ParseCard r code)) code
             = (fst (AddCard ParseCard r code), Inl DuplicateCardError)"
proof -
  from assms have seen: "CardId c \<in> Cards (fst (AddCard ParseCard r code))"
    by (auto simp: AddCard_unfold counted_fields seenAdd_fields split: if_splits)
  with assms(1,2) show ?thesis
    by (simp add: AddCard_unfold [of ParseCard "fst (AddCard ParseCard r code)"])
qed

theorem C5_witness:
  "sampleCodec ''AS'' = Inr \<lparr>Suit = SPADES, Rank = ACE, CardId = ''AS''\<rparr>
   \<and> \<not> isWildcardId ''AS''
   \<and> snd (AddCard sampleCodec fourAces ''AS'') = Inl (OverflowError [TooManyRank ACE])
   \<and> ''AS'' \<in> Cards fifthAce
   \<and> AddCard sampleCodec fifthAce ''AS'' = (fifthAce, Inl DuplicateCardError)"
proof -
  have w: "\<not> isWildcardId (CardId \<lparr>Suit = SPADES, Rank = ACE, CardId = ''AS''\<rparr>)"
    by (simp add: isWildcardId_def)
  have ov: "snd (AddCard sampleCodec fourAces ''AS'') = Inl (OverflowError [TooManyRank ACE])"
    by (simp only: fifthAce_run snd_conv)
  from C5_overflow_keeps_identity [OF sampleCodec_AS w ov] sampleCodec_AS w ov show ?thesis
    by (simp add: fifthAce_def)
qed

section \<open>Successful registrations\<close>

lemma AddCard_Inr_iff:
  "AddCard p r code = (r', Inr c) \<longleftrightarrow>
     p code = Inr c \<and> (isWildcardId (CardId c) \<or> CardId c \<notin> Cards r)
     \<and> violations c (seenAdd c r) = [] \<and> r' = counted c (seenAdd c r)"
  by (auto simp: AddCard_unfold split: sum.splits if_splits)

lemma violations_Nil_iff:
  "violations c r = [] \<longleftrightarrow>
     Total r + 1 \<le> 52 \<and> getCount (Suits r) (Suit c) + 1 \<le> 13
     \<and> getCount (Ranks r) (Rank c) + 1 \<le> 4"
  by (auto simp: violations_eq getCount_def split: option.splits)

lemma AddCard_Inr_iff2:
  "AddCard p r code = (r', Inr c) \<longleftrightarrow>
     p code = Inr c \<and> stepOK r c \<and> r' = counted c (seenAdd c r)"
  by (auto simp: AddCard_Inr_iff violations_Nil_iff seenAdd_fields stepOK_def)

lemma getCount_upd:
  "getCount (m(k \<mapsto> v)) k' = (if k' = k then v else getCount m k')"
  by (simp add: getCount_def)

lemma getCount_step:
  "getCount (Suits (counted c (seenAdd c r))) s =
     getCount (Suits r) s + (if s = Suit c then 1 else 0)"
  "getCount (Ranks (counted c (seenAdd c r))) k =
     getCount (Ranks r) k + (if k = Rank c then 1 else 0)"
  by (auto simp: counted_fields seenAdd_fields getCount_def split: option.splits)

lemma fits_Nil: "fits r []"
  by (simp add: fits_def nonWildIds_def suitCount_def rankCount_def)

lemma limit_Cons:
  fixes g :: "'a \<Rightarrow> int" and cnt :: "'a \<Rightarrow> nat"
  shows "(\<forall>s. 0 < (if f = s then Suc (cnt s) else cnt s) \<longrightarrow>
             g s + int (if f = s then Suc (cnt s) else cnt s) \<le> L)
         \<longleftrightarrow> g f + 1 \<le> L \<and> (\<forall>s. 0 < cnt s \<longrightarrow> g s + (if s = f then 1 else 0) + int (cnt s) \<le> L)"
  (is "?A \<longleftrightarrow> ?B")
proof
  assume a: ?A
  from a [rule_format, of f] have "g f + 1 + int (cnt f) \<le> L" by simp
  then have "g f + 1 \<le> L" by linarith
  moreover have "\<forall>s. 0 < cnt s \<longrightarrow> g s + (if s = f then 1 else 0) + int (cnt s) \<le> L"
    using a by (auto split: if_splits)
  ultimately show ?B by simp
next
  assume b: ?B
  show ?A
  proof (intro allI impI)
    fix s assume "0 < (if f = s then Suc (cnt s) else cnt s)"
    then show "g s + int (if f = s then Suc (cnt s) else cnt s) \<le> L"
      using b by (cases "cnt s = 0") (auto split: if_splits)
  qed
qed

lemma suitCount_Cons:
  "suitCount s (c # cs) = (if Suit c = s then Suc (suitCount s cs) else suitCount s cs)"
  by (simp add: suitCount_def)

lemma rankCount_Cons:
  "rankCount k (c # cs) = (if Rank c = k then Suc (rankCount k cs) else rankCount k cs)"
  by (simp add: rankCount_def)

lemma fits_Cons:
  "fits r (c # cs) \<longleftrightarrow> stepOK r c \<and> fits (counted c (seenAdd c r)) cs"
proof -
  have ids: "distinct (nonWildIds (c # cs)) \<and> set (nonWildIds (c # cs)) \<inter> Cards r = {}
      \<longleftrightarrow> (isWildcardId (CardId c) \<or> CardId c \<notin> Cards r) \<and> distinct (nonWildIds cs)
          \<and> set (nonWildIds cs) \<inter> Cards (counted c (seenAdd c r)) = {}"
    by (auto simp: nonWildIds_def counted_fields seenAdd_fields)
  have tot: "(c # cs \<noteq> [] \<longrightarrow> Total r + int (length (c # cs)) \<le> 52)
      \<longleftrightarrow> Total r + 1 \<le> 52 \<and> (cs \<noteq> [] \<longrightarrow> Total (counted c (seenAdd c r)) + int (length cs) \<le> 52)"
    by (auto simp: counted_fields seenAdd_fields)
  have su: "(\<forall>s. 0 < suitCount s (c # cs) \<longrightarrow> getCount (Suits r) s + int (suitCount s (c # cs)) \<le> 13)
      \<longleftrightarrow> getCount (Suits r) (Suit c) + 1 \<le> 13
          \<and> (\<forall>s. 0 < suitCount s cs \<longrightarrow>
                getCount (Suits (counted c (seenAdd c r))) s + int (suitCount s cs) \<le> 13)"
    unfolding suitCount_Cons getCount_step by (rule limit_Cons)
  have ra: "(\<forall>k. 0 < rankCount k (c # cs) \<longrightarrow> getCount (Ranks r) k + int (rankCount k (c # cs)) \<le> 4)
      \<longleftrightarrow> getCount (Ranks r) (Rank c) + 1 \<le> 4
          \<and> (\<forall>k. 0 < rankCount k cs \<longrightarrow>
                getCount (Ranks (counted c (seenAdd c r))) k + int (rankCount k cs) \<le> 4)"
    unfolding rankCount_Cons getCount_step by (rule limit_Cons)
  show ?thesis
    unfolding fits_def [of r "c # cs"] fits_def [of "counted c (seenAdd c r)" cs] stepOK_def
    using ids tot su ra by blast
qed

lemma AddCards_Inr_fits:
  "AddCards p r codes = (r', Inr cs) \<Longrightarrow> map p codes = map Inr cs \<and> fits r cs"
proof (induction codes arbitrary: r cs)
  case Nil
  then show ?case by (simp add: fits_Nil)
next
  case (Cons code codes)
  from Cons.prems obtain r1 c cs' where
    a: "AddCard p r code = (r1, Inr c)" and b: "AddCards p r1 codes = (r', Inr cs')"
    and cs: "cs = c # cs'"
    by (auto split: prod.splits sum.splits)
  from Cons.IH [OF b] a cs show ?case
    by (simp add: fits_Cons AddCard_Inr_iff2)
qed

lemma fits_AddCards:
  "map p codes = map Inr cs \<Longrightarrow> fits r cs \<Longrightarrow> \<exists>r'. AddCards p r codes = (r', Inr cs)"
proof (induction codes arbitrary: r cs)
  case Nil
  then show ?case by simp
next
  case (Cons code codes)
  from Cons.prems(1) obtain c cs' where cs: "cs = c # cs'" and pc: "p code = Inr c"
    and rest: "map p codes = map Inr cs'"
    by (cases cs) auto
  from Cons.prems(2) cs have ok: "stepOK r c" and f: "fits (counted c (seenAdd c r)) cs'"
    by (simp_all add: fits_Cons)
  from pc ok have a: "AddCard p r code = (counted c (seenAdd c r), Inr c)"
    by (simp add: AddCard_Inr_iff2)
  from Cons.IH [OF rest f] obtain r' where "AddCards p (counted c (seenAdd c r)) codes = (r', Inr cs')"
    by blast
  with a cs show ?case by simp
qed

lemma pos_imp_le_iff: "(0 < (n::nat) \<longrightarrow> n \<le> m) \<longleftrightarrow> n \<le> m"
  by auto

lemma fits_NewRegister: "fits NewRegister cs \<longleftrightarrow> oneDeck cs"
proof -
  have "(\<forall>s. 0 < suitCount s cs \<longrightarrow> int (suitCount s cs) \<le> 13) \<longleftrightarrow> (\<forall>s. suitCount s cs \<le> 13)"
    by (simp add: pos_imp_le_iff)
  moreover
  have "(\<forall>k. 0 < rankCount k cs \<longrightarrow> int (rankCount k cs) \<le> 4) \<longleftrightarrow> (\<forall>k. rankCount k cs \<le> 4)"
    by (simp add: pos_imp_le_iff)
  moreover have "(cs \<noteq> [] \<longrightarrow> int (length cs) \<le> 52) \<longleftrightarrow> length cs \<le> 52"
    by (cases cs) auto
  ultimately show ?thesis
    by (simp add: fits_def oneDeck_def NewRegister_def getCount_def)
qed

lemma AddCards_Inr_iff:
  "(\<exists>r'. AddCards p r codes = (r', Inr cs)) \<longleftrightarrow> map p codes = map Inr cs \<and> fits r cs"
  using AddCards_Inr_fits fits_AddCards by blast

lemma map_Inr_iff:
  "map p codes = map Inr cs \<longleftrightarrow> allParse p codes \<and> cs = cardsOf p codes"
proof (induction codes arbitrary: cs)
  case Nil
  then show ?case by (auto simp: allParse_def cardsOf_def)
next
  case (Cons code codes)
  show ?case
  proof (cases cs)
    case Nil
    then show ?thesis by (simp add: cardsOf_def)
  next
    case (Cons c cs')
    with Cons.IH [of cs'] show ?thesis
      by (cases "p code") (auto simp: allParse_def cardsOf_def)
  qed
qed

lemma AddCards_Inr_cardsOf:
  "AddCards p r codes = (r', Inr cs) \<Longrightarrow>
     allParse p codes \<and> cs = cardsOf p codes \<and> fits r (cardsOf p codes)"
  using AddCards_Inr_fits [of p r codes r' cs] by (auto simp: map_Inr_iff)

lemma AddCards_succeeds:
  "allParse p codes \<Longrightarrow> fits r (cardsOf p codes) \<Longrightarrow>
     \<exists>r'. AddCards p r codes = (r', Inr (cardsOf p codes))"
  using fits_AddCards [of p codes "cardsOf p codes" r] by (simp add: map_Inr_iff)

lemma AddCard_Inr_Total: "AddCard p r code = (r', Inr c) \<Longrightarrow> Total r' = Total r + 1"
  by (auto simp: AddCard_Inr_iff2 stepOK_def counted_fields seenAdd_fields)

lemma AddCards_Inr_Total:
  "AddCards p r codes = (r', Inr cs) \<Longrightarrow> Total r' = Total r + int (length codes)"
proof (induction codes arbitrary: r cs)
  case Nil
  then show ?case by simp
next
  case (Cons code codes)
  from Cons.prems obtain r1 c cs' where
    a: "AddCard p r code = (r1, Inr c)" and b: "AddCards p r1 codes = (r', Inr cs')"
    by (auto split: prod.splits sum.splits)
  from Cons.IH [OF b] AddCard_Inr_Total [OF a] show ?case by simp
qed

lemma AddCards_append:
  "AddCards p r (xs @ ys) =
     (case AddCards p r xs of
        (r1, Inl err) \<Rightarrow> (r1, Inl err)
      | (r1, Inr cs) \<Rightarrow>
          (case AddCards p r1 ys of
             (r2, Inl err) \<Rightarrow> (r2, Inl err)
           | (r2, Inr ds) \<Rightarrow> (r2, Inr (cs @ ds))))"
  by (induction xs arbitrary: r) (auto split: prod.splits sum.splits)

lemma AddCards_append_Inr_iff:
  "AddCards p r (xs @ ys) = (r', Inr es) \<longleftrightarrow>
     (\<exists>r1 cs ds. AddCards p r xs = (r1, Inr cs) \<and> AddCards p r1 ys = (r', Inr ds)
        \<and> es = cs @ ds)"
  by (auto simp: AddCards_append split: prod.splits sum.splits)

section \<open>The phases of Import when no error occurs\<close>

lemma FoundationCards_Inr_iff:
  "FoundationCards p key suit i r codes = (r', Inr cs) \<longleftrightarrow>
     AddCards p r codes = (r', Inr cs) \<and> list_all (\<lambda>c. Suit c = suit) cs"
proof (induction codes arbitrary: r i cs r')
  case Nil
  then show ?case by auto
next
  case (Cons code codes)
  show ?case
  proof (cases "AddCard p r code")
    case (Pair r1 res)
    show ?thesis
    proof (cases res)
      case (Inl err)
      with Pair show ?thesis by simp
    next
      case (Inr c)
      show ?thesis
      proof (cases "Suit c = suit")
        case False
        with Pair Inr show ?thesis by (auto split: prod.splits sum.splits)
      next
        case True
        obtain r2 res2 where rest: "FoundationCards p key suit (Suc i) r1 codes = (r2, res2)"
          by (cases "FoundationCards p key suit (Suc i) r1 codes")
        show ?thesis
        proof (cases res2)
          case (Inl err)
          have "\<not> (\<exists>cs'. AddCards p r1 codes = (r', Inr cs') \<and> list_all (\<lambda>c. Suit c = suit) cs')"
          proof
            assume "\<exists>cs'. AddCards p r1 codes = (r', Inr cs') \<and> list_all (\<lambda>c. Suit c = suit) cs'"
            then obtain cs' where "FoundationCards p key suit (Suc i) r1 codes = (r', Inr cs')"
              using Cons.IH [of "Suc i" r1 r'] by blast
            with rest Inl show False by simp
          qed
          with Pair Inr True rest Inl show ?thesis
            by (auto split: prod.splits sum.splits)
        next
          case (Inr cs2)
          with rest have "AddCards p r1 codes = (r2, Inr cs2) \<and> list_all (\<lambda>c. Suit c = suit) cs2"
            using Cons.IH [of "Suc i" r1 r2 cs2] by simp
          with Pair \<open>res = Inr c\<close> True rest Inr show ?thesis
            by auto
        qed
      qed
    qed
  qed
qed

lemma facedownSum_0: "facedownSum fds i 0 = 0"
  by (simp add: facedownSum_def)

lemma facedownSum_Suc: "facedownSum fds i (Suc n) = fds ! i + facedownSum fds (Suc i) n"
  by (simp add: facedownSum_def upt_conv_Cons del: upt_Suc)

lemma facedownSum_all: "facedownSum fds 0 (length fds) = sum_list fds"
  by (simp add: facedownSum_def map_nth)

lemma ImportStock_None_iff:
  "ImportStock p save r game = (r', game', None) \<longleftrightarrow>
     (\<exists>cs. AddCards p r (Stock_Stack save) = (r', Inr cs)) \<and> game' = stockFill p save game"
  by (auto simp: ImportStock_def stockFill_def Let_def dest: AddCards_Inr_cardsOf
      split: prod.splits sum.splits)

lemma TableauLoop_None_iff:
  "TableauLoop p fds i stacks r game tot = (r', game', tot', None) \<longleftrightarrow>
     topsFaceUp fds i stacks \<and> (\<exists>cs. AddCards p r (concat stacks) = (r', Inr cs))
     \<and> game' = tableauFill p fds i stacks game
     \<and> tot' = tot + facedownSum fds i (length stacks)"
proof (induction stacks arbitrary: i r game tot)
  case Nil
  then show ?case by (auto simp: facedownSum_0)
next
  case (Cons codes rest)
  show ?case
  proof (cases "sint (fds ! i) < int (length codes)")
    case False
    then show ?thesis by (simp add: Let_def)
  next
    case True
    show ?thesis
    proof (cases "AddCards p r codes")
      case (Pair r1 res)
      show ?thesis
      proof (cases res)
        case (Inl err)
        with Pair True show ?thesis
          by (simp add: Let_def AddCards_append)
      next
        case (Inr stack)
        with Pair have st: "stack = cardsOf p codes"
          using AddCards_Inr_cardsOf by blast
        from Pair Inr True st show ?thesis
          by (simp add: Let_def Cons.IH AddCards_append_Inr_iff facedownSum_Suc add.assoc)
      qed
    qed
  qed
qed

lemma ImportTableau_None_iff:
  "ImportTableau p save r game = (r', game', None) \<longleftrightarrow>
     tableauChecks save
     \<and> (\<exists>cs. AddCards p r (concat (Tableau_Stacks save)) = (r', Inr cs))
     \<and> sint (sum_list (Tableau_Facedown save)) \<le> 21
     \<and> game' = tableauFill p (Tableau_Facedown save) 0 (Tableau_Stacks save) game"
proof (cases "length (Tableau_Stacks save) \<le> 7
              \<and> length (Tableau_Facedown save) = length (Tableau_Stacks save)")
  case False
  then show ?thesis by (auto simp: ImportTableau_def tableauChecks_def Let_def)
next
  case True
  then have s: "facedownSum (Tableau_Facedown save) 0 (length (Tableau_Stacks save))
                  = sum_list (Tableau_Facedown save)"
    using facedownSum_all [of "Tableau_Facedown save"] by simp
  obtain r1 g1 t1 e1 where run:
    "TableauLoop p (Tableau_Facedown save) 0 (Tableau_Stacks save) r game 0 = (r1, g1, t1, e1)"
    by (metis prod_cases4)
  show ?thesis
  proof (cases e1)
    case None
    with run True s TableauLoop_None_iff [of p "Tableau_Facedown save" 0 "Tableau_Stacks save" r game 0 r1 g1 t1]
    show ?thesis
      by (auto simp: ImportTableau_def tableauChecks_def Let_def)
  next
    case (Some err)
    have "\<not> (topsFaceUp (Tableau_Facedown save) 0 (Tableau_Stacks save)
            \<and> (\<exists>cs. AddCards p r (concat (Tableau_Stacks save)) = (r', Inr cs)))"
    proof
      assume a: "topsFaceUp (Tableau_Facedown save) 0 (Tableau_Stacks save)
            \<and> (\<exists>cs. AddCards p r (concat (Tableau_Stacks save)) = (r', Inr cs))"
      then have "TableauLoop p (Tableau_Facedown save) 0 (Tableau_Stacks save) r game 0 =
         (r', tableauFill p (Tableau_Facedown save) 0 (Tableau_Stacks save) game,
          0 + facedownSum (Tableau_Facedown save) 0 (length (Tableau_Stacks save)), None)"
        by (simp add: TableauLoop_None_iff)
      with run Some show False by simp
    qed
    with run Some True show ?thesis
      by (auto simp: ImportTableau_def tableauChecks_def Let_def)
  qed
qed

lemma suitsMatch_cardsOf:
  "allParse p codes \<Longrightarrow>
     suitsMatch p suit codes \<longleftrightarrow> list_all (\<lambda>c. Suit c = suit) (cardsOf p codes)"
  by (induction codes) (auto simp: allParse_def suitsMatch_def cardsOf_def split: sum.splits)

lemma ImportFoundations_None_iff:
  "ImportFoundations p visit r game = (r', game', None) \<longleftrightarrow>
     list_all (foundationOK p) visit
     \<and> (\<exists>cs. AddCards p r (concat (map snd visit)) = (r', Inr cs))
     \<and> game' = foundationsFill p visit game"
proof (induction visit arbitrary: r game)
  case Nil
  then show ?case by auto
next
  case (Cons entry rest)
  obtain key codes where entry: "entry = (key, codes)" by (cases entry)
  show ?case
  proof (cases "suitOfKey key")
    case None
    with entry show ?thesis by (simp add: foundationOK_def)
  next
    case (Some suit)
    show ?thesis
    proof (cases "FoundationCards p key suit 0 r codes")
      case (Pair r1 res)
      show ?thesis
      proof (cases res)
        case (Inl err)
        have "\<not> (foundationOK p (key, codes)
                 \<and> (\<exists>cs. AddCards p r (codes @ concat (map snd rest)) = (r', Inr cs)))"
        proof
          assume a: "foundationOK p (key, codes)
                 \<and> (\<exists>cs. AddCards p r (codes @ concat (map snd rest)) = (r', Inr cs))"
          then obtain r2 cs where c: "AddCards p r codes = (r2, Inr cs)"
            by (auto simp: AddCards_append_Inr_iff)
          then have "cs = cardsOf p codes" "allParse p codes"
            using AddCards_Inr_cardsOf by blast+
          with a Some have "list_all (\<lambda>c. Suit c = suit) cs"
            by (simp add: foundationOK_def suitsMatch_cardsOf)
          with c have "FoundationCards p key suit 0 r codes = (r2, Inr cs)"
            by (simp add: FoundationCards_Inr_iff)
          with Pair Inl show False by simp
        qed
        with Pair Inl Some entry show ?thesis by auto
      next
        case (Inr stack)
        with Pair have a: "AddCards p r codes = (r1, Inr stack)"
          and b: "list_all (\<lambda>c. Suit c = suit) stack"
          by (simp_all add: FoundationCards_Inr_iff)
        from a have st: "stack = cardsOf p codes" and ap: "allParse p codes"
          using AddCards_Inr_cardsOf by blast+
        from Pair Inr Some entry a b st show ?thesis
          by (simp add: Cons.IH AddCards_append_Inr_iff foundationOK_def suitsMatch_cardsOf [OF ap])
      qed
    qed
  qed
qed


lemma ImportSteps_None_iff:
  "ImportSteps p visit save game = (r, g, None) \<longleftrightarrow>
     tableauChecks save \<and> sint (sum_list (Tableau_Facedown save)) \<le> 21
     \<and> list_all (foundationOK p) visit
     \<and> (\<exists>cs. AddCards p NewRegister (docCodes save visit) = (r, Inr cs))
     \<and> g = importedGame p visit save game"
  (is "?L \<longleftrightarrow> ?R")
proof
  assume l: ?L
  obtain r1 g1 e1 where s1: "ImportStock p save NewRegister game = (r1, g1, e1)"
    by (metis prod_cases3)
  from l s1 have e1: "e1 = None"
    by (cases e1) (simp_all add: ImportSteps_def)
  obtain r2 g2 e2 where s2: "ImportTableau p save r1 g1 = (r2, g2, e2)"
    by (metis prod_cases3)
  from l s1 e1 s2 have e2: "e2 = None"
    by (cases e2) (simp_all add: ImportSteps_def)
  from l s1 e1 s2 e2 have s3: "ImportFoundations p visit r2 g2 = (r, g, None)"
    by (simp add: ImportSteps_def)
  from s1 e1 obtain cs1 where a1: "AddCards p NewRegister (Stock_Stack save) = (r1, Inr cs1)"
    and g1: "g1 = stockFill p save game"
    by (auto simp: ImportStock_None_iff)
  from s2 e2 obtain cs2 where a2: "AddCards p r1 (concat (Tableau_Stacks save)) = (r2, Inr cs2)"
    and t: "tableauChecks save" "sint (sum_list (Tableau_Facedown save)) \<le> 21"
    and g2: "g2 = tableauFill p (Tableau_Facedown save) 0 (Tableau_Stacks save) g1"
    by (auto simp: ImportTableau_None_iff)
  from s3 obtain cs3 where a3: "AddCards p r2 (concat (map snd visit)) = (r, Inr cs3)"
    and f: "list_all (foundationOK p) visit" and g3: "g = foundationsFill p visit g2"
    by (auto simp: ImportFoundations_None_iff)
  from a1 a2 a3 have "AddCards p NewRegister (docCodes save visit) = (r, Inr (cs1 @ cs2 @ cs3))"
    by (simp add: docCodes_def AddCards_append)
  with t f g1 g2 g3 show ?R
    by (auto simp: importedGame_def)
next
  assume r: ?R
  then obtain r1 r2 cs1 cs2 cs3 where
    a1: "AddCards p NewRegister (Stock_Stack save) = (r1, Inr cs1)"
    and a2: "AddCards p r1 (concat (Tableau_Stacks save)) = (r2, Inr cs2)"
    and a3: "AddCards p r2 (concat (map snd visit)) = (r, Inr cs3)"
    by (auto simp: docCodes_def AddCards_append_Inr_iff)
  from a1 have s1: "ImportStock p save NewRegister game = (r1, stockFill p save game, None)"
    by (simp add: ImportStock_None_iff)
  from a2 r have s2: "ImportTableau p save r1 (stockFill p save game) =
      (r2, tableauFill p (Tableau_Facedown save) 0 (Tableau_Stacks save) (stockFill p save game), None)"
    by (simp add: ImportTableau_None_iff)
  from a3 r have s3: "ImportFoundations p visit r2
      (tableauFill p (Tableau_Facedown save) 0 (Tableau_Stacks save) (stockFill p save game)) =
      (r, g, None)"
    by (simp add: ImportFoundations_None_iff importedGame_def)
  from s1 s2 s3 show ?L by (simp add: ImportSteps_def)
qed

lemma Import_None_iff:
  "Import p visit save game = (r, g, None) \<longleftrightarrow>
     ImportSteps p visit save game = (r, g, None) \<and> Total r = 52"
proof (cases "ImportSteps p visit save game")
  case (fields r1 g1 e1)
  then show ?thesis by (cases e1) (auto simp: Import_def)
qed

lemma ImportSteps_Total:
  assumes "ImportSteps p visit save game = (r, g, None)"
  shows "Total r = int (length (docCodes save visit))"
proof -
  from assms obtain cs where "AddCards p NewRegister (docCodes save visit) = (r, Inr cs)"
    by (auto simp: ImportSteps_None_iff)
  from AddCards_Inr_Total [OF this] show ?thesis by (simp add: NewRegister_def)
qed

section \<open>The tableau\<close>

lemma sum_list_word_of_int:
  "sum_list fds = (word_of_int (sum_list (map sint fds)) :: goint)"
  by (induction fds) simp_all

lemma sint_sum_list:
  assumes "- (2 ^ 63) \<le> sum_list (map sint fds)" "sum_list (map sint fds) < 2 ^ 63"
  shows "sint (sum_list fds :: goint) = sum_list (map sint fds)"
proof -
  have "sint (sum_list fds) = signed_take_bit 63 (sum_list (map sint fds))"
    by (subst sum_list_word_of_int) (simp add: sint_sbintrunc')
  also have "\<dots> = sum_list (map sint fds)"
    using assms by (intro signed_take_bit_int_eq_self) simp_all
  finally show ?thesis .
qed

lemma topsFaceUp_iff:
  "topsFaceUp fds i stacks \<longleftrightarrow>
     (\<forall>j<length stacks. sint (fds ! (i + j)) < int (length (stacks ! j)))"
proof (induction stacks arbitrary: i)
  case Nil
  then show ?case by simp
next
  case (Cons codes rest)
  show ?case
    by (simp add: Cons.IH All_less_Suc2)
qed

lemma topsFaceUp_sum:
  "topsFaceUp fds i stacks \<Longrightarrow>
     sum_list (map (\<lambda>j. sint (fds ! j)) [i..<i + length stacks]) \<le> int (length (concat stacks))"
proof (induction stacks arbitrary: i)
  case Nil
  then show ?case by simp
next
  case (Cons codes rest)
  from Cons.prems have a: "sint (fds ! i) < int (length codes)" and b: "topsFaceUp fds (Suc i) rest"
    by simp_all
  from Cons.IH [OF b] a show ?case
    by (simp add: upt_conv_Cons del: upt_Suc)
qed

lemma topsFaceUp_sum_all:
  assumes "topsFaceUp fds 0 stacks" "length fds = length stacks"
  shows "sum_list (map sint fds) \<le> int (length (concat stacks))"
proof -
  have "map sint (map (\<lambda>j. fds ! j) [0..<length fds]) = map sint fds"
    by (simp only: map_nth)
  then have "map (\<lambda>j. sint (fds ! j)) [0..<length fds] = map sint fds"
    by (simp add: comp_def)
  with topsFaceUp_sum [OF assms(1)] assms(2) show ?thesis by simp
qed


lemmas Import_eval =
  Import_def ImportSteps_def ImportStock_def ImportTableau_def suitOfKey_def emptyGame_def

lemma not_isl_AddCards:
  assumes "\<not> isl (snd (AddCards p r codes))"
  shows "AddCards p r codes = (fst (AddCards p r codes), Inr (cardsOf p codes))"
proof -
  obtain r' res where x: "AddCards p r codes = (r', res)" by (cases "AddCards p r codes")
  with assms obtain cs where "res = Inr cs" by (cases res) auto
  with x AddCards_Inr_cardsOf [of p r codes r' cs] show ?thesis by simp
qed

lemma AddCards_Inr_length:
  "AddCards p r codes = (r', Inr cs) \<Longrightarrow> length cs = length codes"
  using AddCards_Inr_cardsOf [of p r codes r' cs] by (simp add: cardsOf_def)

lemma ImportTableau_run:
  assumes reg: "AddCards p r (concat (Tableau_Stacks save)) = (r', Inr cs)"
    and chk: "tableauChecks save"
  shows "ImportTableau p save r game =
           (r', tableauFill p (Tableau_Facedown save) 0 (Tableau_Stacks save) game,
            if 21 < sint (sum_list (Tableau_Facedown save))
            then Some (TooManyFacedown (sum_list (Tableau_Facedown save))) else None)"
proof -
  from chk have len: "length (Tableau_Stacks save) \<le> 7"
    "length (Tableau_Facedown save) = length (Tableau_Stacks save)"
    and tops: "topsFaceUp (Tableau_Facedown save) 0 (Tableau_Stacks save)"
    by (simp_all add: tableauChecks_def)
  from len have s: "facedownSum (Tableau_Facedown save) 0 (length (Tableau_Stacks save))
                  = sum_list (Tableau_Facedown save)"
    using facedownSum_all [of "Tableau_Facedown save"] by simp
  from reg tops have "TableauLoop p (Tableau_Facedown save) 0 (Tableau_Stacks save) r game 0 =
      (r', tableauFill p (Tableau_Facedown save) 0 (Tableau_Stacks save) game,
       0 + facedownSum (Tableau_Facedown save) 0 (length (Tableau_Stacks save)), None)"
    by (simp add: TableauLoop_None_iff)
  with len s show ?thesis
    by (simp add: ImportTableau_def Let_def)
qed

text \<open>
  C7, amended: if the stock and every tableau stack register without an error, the
  tableau passes the per-stack checks (at most 7 stacks, as many facedown values as
  stacks, each facedown value below its stack's length) and the facedown values sum to
  more than 21, then \<open>Import\<close> fails with the facedown-overflow error carrying that sum;
  the register it leaves is the one in which the stock and all the tableau cards are
  registered, so its total is the number of those cards.
\<close>

theorem C7_facedown_overflow:
  assumes reg: "\<not> isl (snd (AddCards ParseCard NewRegister
                              (Stock_Stack save @ concat (Tableau_Stacks save))))"
    and chk: "tableauChecks save"
    and over: "21 < sum_list (map sint (Tableau_Facedown save))"
  shows "snd (snd (Import ParseCard visit save game))
           = Some (TooManyFacedown (sum_list (Tableau_Facedown save)))
         \<and> sint (sum_list (Tableau_Facedown save)) = sum_list (map sint (Tableau_Facedown save))
         \<and> fst (Import ParseCard visit save game)
             = fst (AddCards ParseCard NewRegister
                      (Stock_Stack save @ concat (Tableau_Stacks save)))
         \<and> Total (fst (Import ParseCard visit save game))
             = int (length (Stock_Stack save) + length (concat (Tableau_Stacks save)))"
proof -
  let ?codes = "Stock_Stack save @ concat (Tableau_Stacks save)"
  let ?r2 = "fst (AddCards ParseCard NewRegister ?codes)"
  from not_isl_AddCards [OF reg]
  have all: "AddCards ParseCard NewRegister ?codes = (?r2, Inr (cardsOf ParseCard ?codes))" .
  then obtain r1 cs1 cs2 where
    a1: "AddCards ParseCard NewRegister (Stock_Stack save) = (r1, Inr cs1)"
    and a2: "AddCards ParseCard r1 (concat (Tableau_Stacks save)) = (?r2, Inr cs2)"
    by (auto simp: AddCards_append_Inr_iff)
  from AddCards_Inr_Total [OF all] have tot: "Total ?r2 = int (length ?codes)"
    by (simp add: NewRegister_def)
  from AddCards_Inr_fits [OF all] have "length (cardsOf ParseCard ?codes) \<le> 52"
    by (simp add: fits_NewRegister oneDeck_def)
  then have n: "length (concat (Tableau_Stacks save)) \<le> 52"
    by (simp add: cardsOf_def)
  from chk have "sum_list (map sint (Tableau_Facedown save))
                   \<le> int (length (concat (Tableau_Stacks save)))"
    by (simp add: tableauChecks_def topsFaceUp_sum_all)
  with n over have sn: "sint (sum_list (Tableau_Facedown save))
                         = sum_list (map sint (Tableau_Facedown save))"
    by (intro sint_sum_list) simp_all
  from a1 have s1: "ImportStock ParseCard save NewRegister game
                      = (r1, stockFill ParseCard save game, None)"
    by (simp add: ImportStock_None_iff)
  from ImportTableau_run [OF a2 chk] sn over
  have s2: "ImportTableau ParseCard save r1 (stockFill ParseCard save game) =
      (?r2, tableauFill ParseCard (Tableau_Facedown save) 0 (Tableau_Stacks save)
              (stockFill ParseCard save game),
       Some (TooManyFacedown (sum_list (Tableau_Facedown save))))"
    by simp
  from s1 s2 have "Import ParseCard visit save game =
      (?r2, tableauFill ParseCard (Tableau_Facedown save) 0 (Tableau_Stacks save)
              (stockFill ParseCard save game),
       Some (TooManyFacedown (sum_list (Tableau_Facedown save))))"
    by (simp add: Import_def ImportSteps_def)
  with sn tot show ?thesis by simp
qed

text \<open>
  C7, as stated, fails: the tableau below passes the per-stack checks and has 22 cards
  face down, but the stock holds a code that does not parse, and \<open>Import\<close> returns the
  parse error.
\<close>

theorem C7_counterexample:
  "tableauChecks facedown22BadStock
   \<and> 21 < sum_list (map sint (Tableau_Facedown facedown22BadStock))
   \<and> snd (snd (Import sampleCodec [] facedown22BadStock emptyGame)) = Some (ParseError ''XX'')"
  by (simp add: facedown22BadStock_def facedown22_def tableauChecks_def Import_eval
      AddCard_eval sample_defs)

theorem C7_witness:
  "\<not> isl (snd (AddCards sampleCodec NewRegister
                (Stock_Stack facedown22 @ concat (Tableau_Stacks facedown22))))
   \<and> tableauChecks facedown22
   \<and> sum_list (map sint (Tableau_Facedown facedown22)) = 22
   \<and> snd (snd (Import sampleCodec [] facedown22 emptyGame)) = Some (TooManyFacedown 22)
   \<and> Total (fst (Import sampleCodec [] facedown22 emptyGame)) = 29"
proof -
  have reg: "\<not> isl (snd (AddCards sampleCodec NewRegister
                (Stock_Stack facedown22 @ concat (Tableau_Stacks facedown22))))"
    by (simp add: facedown22_def AddCard_eval sample_defs)
  have chk: "tableauChecks facedown22"
    by (simp add: facedown22_def tableauChecks_def)
  have s: "sum_list (map sint (Tableau_Facedown facedown22)) = 22"
    by (simp add: facedown22_def)
  then have over: "21 < sum_list (map sint (Tableau_Facedown facedown22))" by simp
  have fds: "sum_list (Tableau_Facedown facedown22) = 22"
    and n: "length (Stock_Stack facedown22) + length (concat (Tableau_Stacks facedown22)) = 29"
    by (simp_all add: facedown22_def)
  from C7_facedown_overflow [OF reg chk over, of "[]" emptyGame]
  have e: "snd (snd (Import sampleCodec [] facedown22 emptyGame))
             = Some (TooManyFacedown (sum_list (Tableau_Facedown facedown22)))"
    and t: "Total (fst (Import sampleCodec [] facedown22 emptyGame))
             = int (length (Stock_Stack facedown22) + length (concat (Tableau_Stacks facedown22)))"
    by blast+
  from e fds have e': "snd (snd (Import sampleCodec [] facedown22 emptyGame))
                         = Some (TooManyFacedown 22)"
    by simp
  from t n have t': "Total (fst (Import sampleCodec [] facedown22 emptyGame)) = 29"
    by simp
  from reg chk s e' t' show ?thesis by (intro conjI)
qed

section \<open>The final check of the total\<close>

lemma deck51_steps:
  "snd (snd (ImportSteps sampleCodec [] deck51 emptyGame)) = None"
  by (simp add: deck51_def deck52_def Import_eval AddCard_eval sample_defs)

text \<open>
  C9: when every step before the final check has passed, the register's total is the
  number of codes in the document, and \<open>Import\<close> returns success when that total is 52
  and \<open>IncompleteDeckError\<close> carrying the total otherwise (a document with 51 codes fails
  reporting 51).
\<close>

theorem C9_final_total_check:
  assumes "ImportSteps ParseCard visit save game = (r, g, None)"
  shows "Total r = int (length (docCodes save visit))
         \<and> Import ParseCard visit save game =
             (r, g, if Total r = 52 then None else Some (IncompleteDeckError (Total r)))"
  using assms ImportSteps_Total [OF assms] by (simp add: Import_def)

theorem C9_witness:
  "snd (snd (ImportSteps sampleCodec [] deck51 emptyGame)) = None
   \<and> length (docCodes deck51 []) = 51
   \<and> snd (snd (Import sampleCodec [] deck51 emptyGame)) = Some (IncompleteDeckError 51)"
proof -
  have st: "ImportSteps sampleCodec [] deck51 emptyGame =
          (fst (ImportSteps sampleCodec [] deck51 emptyGame),
           fst (snd (ImportSteps sampleCodec [] deck51 emptyGame)), None)"
    using deck51_steps by (simp add: prod_eq_iff)
  have n: "length (docCodes deck51 []) = 51"
    by (simp add: docCodes_def deck51_def deck52_def)
  from C9_final_total_check [OF st] n deck51_steps show ?thesis
    by simp
qed

section \<open>What the tableau loop writes into the game\<close>

lemma tableauFill_other:
  "game_Stock_Limit (tableauFill p fds i stacks game) = game_Stock_Limit game"
  "game_Stock_Loop (tableauFill p fds i stacks game) = game_Stock_Loop game"
  "game_Stock_Pos (tableauFill p fds i stacks game) = game_Stock_Pos game"
  "game_Stock_Stack (tableauFill p fds i stacks game) = game_Stock_Stack game"
  "game_Foundations (tableauFill p fds i stacks game) = game_Foundations game"
  by (induction stacks arbitrary: i game; simp)+

lemma foundationsFill_other:
  "game_Stock_Limit (foundationsFill p visit game) = game_Stock_Limit game"
  "game_Stock_Loop (foundationsFill p visit game) = game_Stock_Loop game"
  "game_Stock_Pos (foundationsFill p visit game) = game_Stock_Pos game"
  "game_Stock_Stack (foundationsFill p visit game) = game_Stock_Stack game"
  "game_Tableau_Stacks (foundationsFill p visit game) = game_Tableau_Stacks game"
  "game_Tableau_Facedown (foundationsFill p visit game) = game_Tableau_Facedown game"
  by (induction visit arbitrary: game; auto)+

lemma update_segment:
  assumes "i < length xs"
  shows "take (Suc i) (xs[i := v]) = take i xs @ [v]"
    and "i < k \<Longrightarrow> drop k (xs[i := v]) = drop k xs"
  using assms by (simp_all add: take_Suc_conv_app_nth)

lemma tableauFill_Facedown:
  "i + length stacks \<le> length (game_Tableau_Facedown game) \<Longrightarrow>
   game_Tableau_Facedown (tableauFill p fds i stacks game) =
     take i (game_Tableau_Facedown game) @ map (\<lambda>j. fds ! j) [i..<i + length stacks]
       @ drop (i + length stacks) (game_Tableau_Facedown game)"
proof (induction stacks arbitrary: i game)
  case Nil
  then show ?case by simp
next
  case (Cons codes rest)
  from Cons.prems have i: "i < length (game_Tableau_Facedown game)" by simp
  from Cons.prems show ?case
    by (simp add: Cons.IH update_segment [OF i] upt_conv_Cons del: upt_Suc)
qed

lemma tableauFill_Stacks:
  "i + length stacks \<le> length (game_Tableau_Stacks game) \<Longrightarrow>
   game_Tableau_Stacks (tableauFill p fds i stacks game) =
     take i (game_Tableau_Stacks game) @ map (cardsOf p) stacks
       @ drop (i + length stacks) (game_Tableau_Stacks game)"
proof (induction stacks arbitrary: i game)
  case Nil
  then show ?case by simp
next
  case (Cons codes rest)
  from Cons.prems have i: "i < length (game_Tableau_Stacks game)" by simp
  from Cons.prems show ?case
    by (simp add: Cons.IH update_segment [OF i])
qed

lemma nth_upt_all: "map (\<lambda>j. fds ! j) [0..<length fds] = fds"
  by (rule map_nth)

text \<open>
  C10: the tableau step asks of a facedown value only that it is below its stack's length
  as a signed integer, which every negative value is (also \<open>-1\<close> on an empty stack).
  So when the non-negative values are below their stacks' lengths and the stacks
  register, no top-card error arises: the values, negative ones included, are stored
  unchanged in the game's facedown slots, and their 64-bit sum, negative ones included, is
  what is compared with 21. That sum is the sum of the signed values as long as it stays
  in the 64-bit range.
\<close>

theorem C10_negative_facedown:
  assumes cap: "tableauCapacity game"
    and len: "length (Tableau_Stacks save) \<le> 7"
             "length (Tableau_Facedown save) = length (Tableau_Stacks save)"
    and nonneg: "\<forall>i<length (Tableau_Stacks save).
                   0 \<le> sint (Tableau_Facedown save ! i) \<longrightarrow>
                   sint (Tableau_Facedown save ! i) < int (length (Tableau_Stacks save ! i))"
    and reg: "\<not> isl (snd (AddCards ParseCard r (concat (Tableau_Stacks save))))"
  shows "snd (snd (ImportTableau ParseCard save r game))
           = (if 21 < sint (sum_list (Tableau_Facedown save))
              then Some (TooManyFacedown (sum_list (Tableau_Facedown save))) else None)
         \<and> game_Tableau_Facedown (fst (snd (ImportTableau ParseCard save r game)))
             = Tableau_Facedown save
               @ drop (length (Tableau_Stacks save)) (game_Tableau_Facedown game)
         \<and> (- (2 ^ 63) \<le> sum_list (map sint (Tableau_Facedown save))
              \<and> sum_list (map sint (Tableau_Facedown save)) < 2 ^ 63
              \<longrightarrow> sint (sum_list (Tableau_Facedown save))
                    = sum_list (map sint (Tableau_Facedown save)))"
proof -
  have "\<forall>i<length (Tableau_Stacks save).
          sint (Tableau_Facedown save ! i) < int (length (Tableau_Stacks save ! i))"
  proof (intro allI impI)
    fix i assume i: "i < length (Tableau_Stacks save)"
    show "sint (Tableau_Facedown save ! i) < int (length (Tableau_Stacks save ! i))"
    proof (cases "0 \<le> sint (Tableau_Facedown save ! i)")
      case True
      with nonneg i show ?thesis by blast
    next
      case False
      then show ?thesis by linarith
    qed
  qed
  with len have chk: "tableauChecks save"
    by (simp add: tableauChecks_def topsFaceUp_iff)
  from ImportTableau_run [OF not_isl_AddCards [OF reg] chk, of game]
  have run: "ImportTableau ParseCard save r game =
      (fst (AddCards ParseCard r (concat (Tableau_Stacks save))),
       tableauFill ParseCard (Tableau_Facedown save) 0 (Tableau_Stacks save) game,
       if 21 < sint (sum_list (Tableau_Facedown save))
       then Some (TooManyFacedown (sum_list (Tableau_Facedown save))) else None)" .
  from cap len have fit: "0 + length (Tableau_Stacks save) \<le> length (game_Tableau_Facedown game)"
    by (simp add: tableauCapacity_def)
  have "game_Tableau_Facedown
          (tableauFill ParseCard (Tableau_Facedown save) 0 (Tableau_Stacks save) game) =
        Tableau_Facedown save @ drop (length (Tableau_Stacks save)) (game_Tableau_Facedown game)"
    using tableauFill_Facedown [OF fit, of ParseCard "Tableau_Facedown save"] len(2)
      nth_upt_all [of "Tableau_Facedown save"] by simp
  with run len(2) sint_sum_list [of "Tableau_Facedown save"] show ?thesis
    by simp
qed

theorem C10_witness:
  "tableauCapacity emptyGame
   \<and> Tableau_Stacks negativeFacedown ! 6 = []
   \<and> sint (Tableau_Facedown negativeFacedown ! 6) = - 1
   \<and> \<not> isl (snd (AddCards sampleCodec NewRegister (concat (Tableau_Stacks negativeFacedown))))
   \<and> snd (snd (ImportTableau sampleCodec negativeFacedown NewRegister emptyGame)) = None
   \<and> game_Tableau_Facedown (fst (snd (ImportTableau sampleCodec negativeFacedown NewRegister emptyGame)))
       = [3, 3, 3, 3, 3, 3, - 1]
   \<and> sint (sum_list (Tableau_Facedown negativeFacedown)) = 17"
proof -
  have cap: "tableauCapacity emptyGame"
    by (simp add: tableauCapacity_def emptyGame_def)
  have len: "length (Tableau_Stacks negativeFacedown) \<le> 7"
    "length (Tableau_Facedown negativeFacedown) = length (Tableau_Stacks negativeFacedown)"
    by (simp_all add: negativeFacedown_def)
  have nonneg: "\<forall>i<length (Tableau_Stacks negativeFacedown).
                   0 \<le> sint (Tableau_Facedown negativeFacedown ! i) \<longrightarrow>
                   sint (Tableau_Facedown negativeFacedown ! i)
                     < int (length (Tableau_Stacks negativeFacedown ! i))"
    by (simp add: negativeFacedown_def All_less_Suc2 eval_nat_numeral)
  have reg: "\<not> isl (snd (AddCards sampleCodec NewRegister
                          (concat (Tableau_Stacks negativeFacedown))))"
    by (simp add: negativeFacedown_def AddCard_eval sample_defs)
  have e: "Tableau_Stacks negativeFacedown ! 6 = []"
    "sint (Tableau_Facedown negativeFacedown ! 6) = - 1"
    "sint (sum_list (Tableau_Facedown negativeFacedown)) = 17"
    "length (Tableau_Stacks negativeFacedown) = 7"
    "Tableau_Facedown negativeFacedown = [3, 3, 3, 3, 3, 3, - 1]"
    by (simp_all add: negativeFacedown_def)
  have d: "drop 7 (game_Tableau_Facedown emptyGame) = []"
    by (simp add: emptyGame_def)
  from C10_negative_facedown [OF cap len nonneg reg] e d cap reg show ?thesis
    by simp
qed

section \<open>A whole import\<close>

lemma rangeOf_empty: "rangeOf Map.empty visit \<longleftrightarrow> visit = []"
  by (cases visit) (auto simp: rangeOf_def)

lemma Import_succeeds:
  assumes chk: "tableauChecks save"
    and fd: "sint (sum_list (Tableau_Facedown save)) \<le> 21"
    and keys: "list_all (foundationOK p) visit"
    and parse: "allParse p (docCodes save visit)"
    and deck: "oneDeck (cardsOf p (docCodes save visit))"
    and n: "length (docCodes save visit) = 52"
  shows "\<exists>r. Import p visit save game = (r, importedGame p visit save game, None)"
proof -
  from deck have f: "fits NewRegister (cardsOf p (docCodes save visit))"
    by (simp add: fits_NewRegister)
  from AddCards_succeeds [OF parse f] obtain r where
    a: "AddCards p NewRegister (docCodes save visit) = (r, Inr (cardsOf p (docCodes save visit)))"
    by blast
  with chk fd keys have s: "ImportSteps p visit save game = (r, importedGame p visit save game, None)"
    by (simp add: ImportSteps_None_iff)
  from AddCards_Inr_Total [OF a] n have "Total r = 52"
    by (simp add: NewRegister_def)
  with s show ?thesis by (simp add: Import_None_iff)
qed

text \<open>
  C8: for a document with a stock of 24 codes, seven stacks of four codes with three
  cards face down each and no foundations, whose 52 codes parse to cards of one deck
  (distinct identities, at most 13 of a suit and 4 of a rank), \<open>Import\<close> into a game
  with seven tableau slots and no foundation written yet returns no error; afterwards the
  stock holds the 24 parsed cards, the tableau holds the seven stacks of four with 3 face
  down each, and every foundation is the empty sequence.
\<close>

theorem C8_concrete_scenario:
  assumes stock: "length (Stock_Stack save) = 24"
    and stacks: "map length (Tableau_Stacks save) = [4, 4, 4, 4, 4, 4, 4]"
    and fds: "Tableau_Facedown save = [3, 3, 3, 3, 3, 3, 3]"
    and nofound: "Foundations save = Map.empty"
    and visit: "rangeOf (Foundations save) visit"
    and parse: "allParse ParseCard (docCodes save visit)"
    and deck: "oneDeck (cardsOf ParseCard (docCodes save visit))"
    and cap: "tableauCapacity game"
    and fresh: "game_Foundations game = (\<lambda>suit. [])"
  shows "snd (snd (Import ParseCard visit save game)) = None
         \<and> game_Stock_Stack (fst (snd (Import ParseCard visit save game)))
             = cardsOf ParseCard (Stock_Stack save)
         \<and> length (game_Stock_Stack (fst (snd (Import ParseCard visit save game)))) = 24
         \<and> game_Tableau_Stacks (fst (snd (Import ParseCard visit save game)))
             = map (cardsOf ParseCard) (Tableau_Stacks save)
         \<and> map length (game_Tableau_Stacks (fst (snd (Import ParseCard visit save game))))
             = [4, 4, 4, 4, 4, 4, 4]
         \<and> game_Tableau_Facedown (fst (snd (Import ParseCard visit save game)))
             = [3, 3, 3, 3, 3, 3, 3]
         \<and> game_Foundations (fst (snd (Import ParseCard visit save game))) = (\<lambda>suit. [])"
proof -
  from visit nofound have v: "visit = []" by (simp add: rangeOf_empty)
  from stacks obtain s0 s1 s2 s3 s4 s5 s6 where
    st: "Tableau_Stacks save = [s0, s1, s2, s3, s4, s5, s6]"
    and l: "length s0 = 4" "length s1 = 4" "length s2 = 4" "length s3 = 4"
           "length s4 = 4" "length s5 = 4" "length s6 = 4"
    by (auto simp: map_eq_Cons_conv)
  from st l fds have chk: "tableauChecks save"
    by (simp add: tableauChecks_def)
  from fds have fd: "sint (sum_list (Tableau_Facedown save)) \<le> 21" by simp
  from v have keys: "list_all (foundationOK ParseCard) visit" by simp
  from stock st l v have n: "length (docCodes save visit) = 52"
    by (simp add: docCodes_def)
  from Import_succeeds [OF chk fd keys parse deck n, of game] obtain r where
    run: "Import ParseCard visit save game = (r, importedGame ParseCard visit save game, None)"
    by blast
  from cap st have fit: "0 + length (Tableau_Stacks save) \<le> length (game_Tableau_Stacks game)"
    "0 + length (Tableau_Stacks save) \<le> length (game_Tableau_Facedown game)"
    by (simp_all add: tableauCapacity_def)
  have g1: "game_Tableau_Stacks (importedGame ParseCard visit save game)
              = map (cardsOf ParseCard) (Tableau_Stacks save)"
    using tableauFill_Stacks [of 0 "Tableau_Stacks save" "stockFill ParseCard save game" ParseCard
        "Tableau_Facedown save"] fit cap st
    by (simp add: importedGame_def foundationsFill_other stockFill_def tableauCapacity_def)
  have g2: "game_Tableau_Facedown (importedGame ParseCard visit save game)
              = Tableau_Facedown save"
    using tableauFill_Facedown [of 0 "Tableau_Stacks save" "stockFill ParseCard save game" ParseCard
        "Tableau_Facedown save"] fit cap st fds
    by (simp add: importedGame_def foundationsFill_other stockFill_def tableauCapacity_def
        upt_conv_Cons del: upt_Suc)
  have g3: "game_Stock_Stack (importedGame ParseCard visit save game)
              = cardsOf ParseCard (Stock_Stack save)"
    by (simp add: importedGame_def foundationsFill_other tableauFill_other stockFill_def)
  have g4: "game_Foundations (importedGame ParseCard visit save game) = (\<lambda>suit. [])"
    using v fresh by (simp add: importedGame_def tableauFill_other stockFill_def)
  from g1 st l have g5: "map length (game_Tableau_Stacks (importedGame ParseCard visit save game))
              = [4, 4, 4, 4, 4, 4, 4]"
    by (simp add: cardsOf_def)
  from run g1 g2 g3 g4 g5 stock fds show ?thesis
    by (simp add: cardsOf_def)
qed

lemma deck52_registers:
  "\<not> isl (snd (AddCards sampleCodec NewRegister (docCodes deck52 [])))"
  by (simp add: docCodes_def deck52_def AddCard_eval sample_defs)

theorem C8_witness:
  "length (Stock_Stack deck52) = 24
   \<and> map length (Tableau_Stacks deck52) = [4, 4, 4, 4, 4, 4, 4]
   \<and> Tableau_Facedown deck52 = [3, 3, 3, 3, 3, 3, 3]
   \<and> Foundations deck52 = Map.empty
   \<and> rangeOf (Foundations deck52) []
   \<and> allParse sampleCodec (docCodes deck52 [])
   \<and> oneDeck (cardsOf sampleCodec (docCodes deck52 []))
   \<and> tableauCapacity emptyGame
   \<and> snd (snd (Import sampleCodec [] deck52 emptyGame)) = None
   \<and> map length (game_Tableau_Stacks (fst (snd (Import sampleCodec [] deck52 emptyGame))))
       = [4, 4, 4, 4, 4, 4, 4]
   \<and> game_Tableau_Facedown (fst (snd (Import sampleCodec [] deck52 emptyGame)))
       = [3, 3, 3, 3, 3, 3, 3]
   \<and> length (game_Stock_Stack (fst (snd (Import sampleCodec [] deck52 emptyGame)))) = 24
   \<and> game_Foundations (fst (snd (Import sampleCodec [] deck52 emptyGame))) SPADES = []"
proof -
  have stock: "length (Stock_Stack deck52) = 24"
    and stacks: "map length (Tableau_Stacks deck52) = [4, 4, 4, 4, 4, 4, 4]"
    and fds: "Tableau_Facedown deck52 = [3, 3, 3, 3, 3, 3, 3]"
    and nofound: "Foundations deck52 = Map.empty"
    by (simp_all add: deck52_def)
  have visit: "rangeOf (Foundations deck52) []"
    by (simp add: nofound rangeOf_def)
  from AddCards_Inr_cardsOf [OF not_isl_AddCards [OF deck52_registers]]
  have parse: "allParse sampleCodec (docCodes deck52 [])"
    and deck: "oneDeck (cardsOf sampleCodec (docCodes deck52 []))"
    by (simp_all add: fits_NewRegister)
  have cap: "tableauCapacity emptyGame"
    by (simp add: tableauCapacity_def emptyGame_def)
  have fresh: "game_Foundations emptyGame = (\<lambda>suit. [])"
    by (simp add: emptyGame_def)
  from C8_concrete_scenario [OF stock stacks fds nofound visit parse deck cap fresh]
  have ok: "snd (snd (Import sampleCodec [] deck52 emptyGame)) = None"
    and t: "map length (game_Tableau_Stacks (fst (snd (Import sampleCodec [] deck52 emptyGame))))
              = [4, 4, 4, 4, 4, 4, 4]"
    and f: "game_Tableau_Facedown (fst (snd (Import sampleCodec [] deck52 emptyGame)))
              = [3, 3, 3, 3, 3, 3, 3]"
    and k: "length (game_Stock_Stack (fst (snd (Import sampleCodec [] deck52 emptyGame)))) = 24"
    and e: "game_Foundations (fst (snd (Import sampleCodec [] deck52 emptyGame))) = (\<lambda>suit. [])"
    by blast+
  from e have e': "game_Foundations (fst (snd (Import sampleCodec [] deck52 emptyGame))) SPADES = []"
    by simp
  from stock stacks fds nofound visit parse deck cap ok t f k e' show ?thesis
    by (intro conjI)
qed

section \<open>Duplicates\<close>

lemma FoundationCards_eq:
  "suitsMatch p suit codes \<Longrightarrow> FoundationCards p key suit i r codes = AddCards p r codes"
proof (induction codes arbitrary: r i)
  case Nil
  then show ?case by simp
next
  case (Cons code codes)
  from Cons.prems have rest: "suitsMatch p suit codes"
    and here: "\<And>c. p code = Inr c \<Longrightarrow> Suit c = suit"
    by (auto simp: suitsMatch_def)
  show ?case
  proof (cases "AddCard p r code")
    case (Pair r1 res)
    show ?thesis
    proof (cases res)
      case (Inl err)
      with Pair show ?thesis by simp
    next
      case (Inr c)
      with Pair have "p code = Inr c" by (simp add: AddCard_Inr_iff2)
      with here have "Suit c = suit" by simp
      with Pair Inr Cons.IH [OF rest] show ?thesis by simp
    qed
  qed
qed

lemma TableauLoop_register:
  "topsFaceUp fds i stacks \<Longrightarrow>
     fst (TableauLoop p fds i stacks r game tot) = fst (AddCards p r (concat stacks))
     \<and> snd (snd (snd (TableauLoop p fds i stacks r game tot)))
         = errorOf (snd (AddCards p r (concat stacks)))"
proof (induction stacks arbitrary: i r game tot)
  case Nil
  then show ?case by (simp add: errorOf_def)
next
  case (Cons codes rest)
  from Cons.prems have a: "sint (fds ! i) < int (length codes)"
    and b: "topsFaceUp fds (Suc i) rest"
    by simp_all
  show ?case
  proof (cases "AddCards p r codes")
    case (Pair r1 res)
    show ?thesis
    proof (cases res)
      case (Inl err)
      with Pair a show ?thesis
        by (simp add: Let_def AddCards_append errorOf_def)
    next
      case (Inr stack)
      with Pair a Cons.IH [OF b] show ?thesis
        by (simp add: Let_def AddCards_append errorOf_def split: prod.splits sum.splits)
    qed
  qed
qed

lemma ImportFoundations_register:
  "list_all (foundationOK p) visit \<Longrightarrow>
     fst (ImportFoundations p visit r game) = fst (AddCards p r (concat (map snd visit)))
     \<and> snd (snd (ImportFoundations p visit r game))
         = errorOf (snd (AddCards p r (concat (map snd visit))))"
proof (induction visit arbitrary: r game)
  case Nil
  then show ?case by (simp add: errorOf_def)
next
  case (Cons entry rest)
  obtain key codes where entry: "entry = (key, codes)" by (cases entry)
  from Cons.prems have r: "list_all (foundationOK p) rest" and e: "foundationOK p entry"
    by simp_all
  from e entry obtain suit where k: "suitOfKey key = Some suit"
    and m: "suitsMatch p suit codes"
    by (auto simp: foundationOK_def split: option.splits)
  show ?case
  proof (cases "AddCards p r codes")
    case (Pair r1 res)
    show ?thesis
    proof (cases res)
      case (Inl err)
      with Pair entry k m show ?thesis
        by (simp add: FoundationCards_eq AddCards_append errorOf_def)
    next
      case (Inr stack)
      with Pair entry k m Cons.IH [OF r] show ?thesis
        by (simp add: FoundationCards_eq AddCards_append errorOf_def split: prod.splits sum.splits)
    qed
  qed
qed

text \<open>When the shape checks and the foundation checks pass, \<open>Import\<close> stops at the
  first registration that fails.\<close>

lemma ImportSteps_register:
  assumes chk: "tableauChecks save"
    and fd: "sint (sum_list (Tableau_Facedown save)) \<le> 21"
    and keys: "list_all (foundationOK p) visit"
  shows "snd (snd (ImportSteps p visit save game))
           = errorOf (snd (AddCards p NewRegister (docCodes save visit)))"
proof (cases "AddCards p NewRegister (Stock_Stack save)")
  case (Pair r1 res1)
  show ?thesis
  proof (cases res1)
    case (Inl err)
    with Pair show ?thesis
      by (simp add: ImportSteps_def ImportStock_def docCodes_def AddCards_append errorOf_def)
  next
    case (Inr stock)
    with Pair have s1: "ImportStock p save NewRegister game = (r1, stockFill p save game, None)"
      by (auto simp: ImportStock_None_iff)
    from chk have len: "length (Tableau_Stacks save) \<le> 7"
      "length (Tableau_Facedown save) = length (Tableau_Stacks save)"
      and tops: "topsFaceUp (Tableau_Facedown save) 0 (Tableau_Stacks save)"
      by (simp_all add: tableauChecks_def)
    show ?thesis
    proof (cases "AddCards p r1 (concat (Tableau_Stacks save))")
      case tab: (Pair r2 res2)
      show ?thesis
      proof (cases res2)
        case err: (Inl e)
        from TableauLoop_register [OF tops, of p r1 "stockFill p save game" 0] tab err
        have "snd (snd (snd (TableauLoop p (Tableau_Facedown save) 0 (Tableau_Stacks save) r1
                               (stockFill p save game) 0))) = Some e"
          by (simp add: errorOf_def)
        with len have "snd (snd (ImportTableau p save r1 (stockFill p save game))) = Some e"
          by (auto simp: ImportTableau_def Let_def split: prod.splits option.splits)
        then obtain r2' g2' where
          "ImportTableau p save r1 (stockFill p save game) = (r2', g2', Some e)"
          by (metis prod.collapse)
        with s1 Pair Inr tab err show ?thesis
          by (simp add: ImportSteps_def docCodes_def AddCards_append errorOf_def)
      next
        case ok: (Inr cs)
        from ImportTableau_run [OF _ chk, of p r1 r2 cs "stockFill p save game"] tab ok fd
        have s2: "ImportTableau p save r1 (stockFill p save game) =
            (r2, tableauFill p (Tableau_Facedown save) 0 (Tableau_Stacks save)
                   (stockFill p save game), None)"
          by simp
        from s1 s2 ImportFoundations_register [OF keys, of r2] Pair Inr tab ok show ?thesis
          by (simp add: ImportSteps_def docCodes_def AddCards_append errorOf_def
              split: prod.splits sum.splits)
      qed
    qed
  qed
qed

lemma AddCard_Cards_mono: "Cards r \<subseteq> Cards (fst (AddCard p r code))"
  by (auto simp: AddCard_unfold counted_fields seenAdd_fields split: sum.splits)

lemma AddCard_seen:
  "p code = Inr c \<Longrightarrow> \<not> isWildcardId (CardId c) \<Longrightarrow> CardId c \<in> Cards (fst (AddCard p r code))"
  by (auto simp: AddCard_unfold counted_fields seenAdd_fields)

lemma AddCards_Cards_mono: "Cards r \<subseteq> Cards (fst (AddCards p r codes))"
proof (induction codes arbitrary: r)
  case Nil
  then show ?case by simp
next
  case (Cons code codes)
  from AddCard_Cards_mono [of r p code] Cons.IH [of "fst (AddCard p r code)"]
  show ?case
    by (auto split: prod.splits sum.splits)
qed

lemma AddCards_seen:
  assumes "p code = Inr c" "\<not> isWildcardId (CardId c)"
  shows "code \<in> set codes \<Longrightarrow> AddCards p r codes = (r', Inr cs) \<Longrightarrow> CardId c \<in> Cards r'"
proof (induction codes arbitrary: r cs)
  case Nil
  then show ?case by simp
next
  case (Cons x xs)
  from Cons.prems(2) obtain r1 d ds where
    a: "AddCard p r x = (r1, Inr d)" and b: "AddCards p r1 xs = (r', Inr ds)"
    by (auto split: prod.splits sum.splits)
  show ?case
  proof (cases "x = code")
    case True
    with a AddCard_seen [where p = p and code = code and r = r, OF assms]
    have "CardId c \<in> Cards r1" by simp
    with AddCards_Cards_mono [of r1 p xs] b show ?thesis by auto
  next
    case False
    with Cons.prems(1) have "code \<in> set xs" by simp
    from Cons.IH [OF this b] show ?thesis .
  qed
qed

lemma AddCards_second_occurrence:
  assumes p: "p code = Inr c" and nw: "\<not> isWildcardId (CardId c)"
    and mem: "code \<in> set xs"
    and reg: "\<not> isl (snd (AddCards p r xs))"
  shows "snd (AddCards p r (xs @ code # ys)) = Inl DuplicateCardError"
proof -
  from not_isl_AddCards [OF reg] obtain r1 cs where a: "AddCards p r xs = (r1, Inr cs)"
    by blast
  from AddCards_seen [where p = p and code = code, OF p nw mem a]
  have "CardId c \<in> Cards r1" .
  with p nw have "AddCard p r1 code = (r1, Inl DuplicateCardError)"
    by (simp add: AddCard_unfold)
  with a show ?thesis by (simp add: AddCards_append)
qed

lemma AddCards_prefix_registers:
  "\<not> isl (snd (AddCards p r (xs @ ys))) \<Longrightarrow> \<not> isl (snd (AddCards p r xs))"
  by (auto simp: AddCards_append split: prod.splits sum.splits)

text \<open>
  C6, amended: when a non-wildcard code occurs a second time among the codes of the
  stock, the tableau stacks and the foundations (in the order in which they are
  registered), \<open>Import\<close> never returns success, and it fails with
  \<open>DuplicateCardError\<close> when the shape checks and the foundation checks pass and the
  codes before that second occurrence register. A call of \<open>AddCard\<close> for a wildcard
  code never returns \<open>DuplicateCardError\<close>, however often the code was registered
  before.
\<close>

theorem C6_duplicate_code:
  assumes p: "ParseCard code = Inr c" and nw: "\<not> isWildcardId (CardId c)"
    and twice: "docCodes save visit = xs @ code # ys" "code \<in> set xs"
  shows "snd (snd (Import ParseCard visit save game)) \<noteq> None
         \<and> (tableauChecks save \<and> sint (sum_list (Tableau_Facedown save)) \<le> 21
              \<and> list_all (foundationOK ParseCard) visit
              \<and> \<not> isl (snd (AddCards ParseCard NewRegister xs))
            \<longrightarrow> snd (snd (Import ParseCard visit save game)) = Some DuplicateCardError)
         \<and> (ParseCard wcode = Inr w \<and> isWildcardId (CardId w)
            \<longrightarrow> snd (AddCard ParseCard r wcode) \<noteq> Inl DuplicateCardError)"
proof (intro conjI impI)
  show "snd (snd (Import ParseCard visit save game)) \<noteq> None"
  proof
    assume "snd (snd (Import ParseCard visit save game)) = None"
    then obtain r' g where "Import ParseCard visit save game = (r', g, None)"
      by (metis prod.collapse)
    then obtain cs where all: "AddCards ParseCard NewRegister (docCodes save visit) = (r', Inr cs)"
      by (auto simp: Import_None_iff ImportSteps_None_iff)
    then have "\<not> isl (snd (AddCards ParseCard NewRegister (xs @ code # ys)))"
      using twice(1) by simp
    then have "\<not> isl (snd (AddCards ParseCard NewRegister xs))"
      by (rule AddCards_prefix_registers)
    from AddCards_second_occurrence
           [where p = ParseCard and code = code and ys = ys, OF p nw twice(2) this]
      all twice(1)
    show False by simp
  qed
next
  assume a: "tableauChecks save \<and> sint (sum_list (Tableau_Facedown save)) \<le> 21
              \<and> list_all (foundationOK ParseCard) visit
              \<and> \<not> isl (snd (AddCards ParseCard NewRegister xs))"
  then have "snd (snd (ImportSteps ParseCard visit save game))
               = errorOf (snd (AddCards ParseCard NewRegister (docCodes save visit)))"
    by (intro ImportSteps_register) simp_all
  also have "\<dots> = Some DuplicateCardError"
    using AddCards_second_occurrence
            [where p = ParseCard and code = code and r = NewRegister and ys = ys,
             OF p nw twice(2)] a twice(1)
    by (simp add: errorOf_def)
  finally show "snd (snd (Import ParseCard visit save game)) = Some DuplicateCardError"
    by (auto simp: Import_def split: prod.splits option.splits)
next
  assume "ParseCard wcode = Inr w \<and> isWildcardId (CardId w)"
  then show "snd (AddCard ParseCard r wcode) \<noteq> Inl DuplicateCardError"
    by (simp add: AddCard_unfold)
qed

text \<open>
  C6, as stated, fails: the document below holds the ace of spades eight times, and
  \<open>Import\<close> returns the stack-count error, which is checked before any tableau card is
  registered.
\<close>

theorem C6_counterexample:
  "sampleCodec ''AS'' = Inr \<lparr>Suit = SPADES, Rank = ACE, CardId = ''AS''\<rparr>
   \<and> \<not> isWildcardId ''AS''
   \<and> count_list (docCodes eightStacks []) ''AS'' = 8
   \<and> snd (snd (Import sampleCodec [] eightStacks emptyGame)) = Some (TooManyStacks 8)"
  by (simp add: eightStacks_def docCodes_def Import_eval AddCard_eval sample_defs)

theorem C6_witness:
  "sampleCodec ''AS'' = Inr \<lparr>Suit = SPADES, Rank = ACE, CardId = ''AS''\<rparr>
   \<and> \<not> isWildcardId ''AS''
   \<and> docCodes aceTwice [] = [''AS'', ''2S'', ''3S''] @ ''AS'' # []
   \<and> ''AS'' \<in> set [''AS'', ''2S'', ''3S'']
   \<and> tableauChecks aceTwice \<and> sint (sum_list (Tableau_Facedown aceTwice)) \<le> 21
   \<and> list_all (foundationOK sampleCodec) []
   \<and> \<not> isl (snd (AddCards sampleCodec NewRegister [''AS'', ''2S'', ''3S'']))
   \<and> snd (snd (Import sampleCodec [] aceTwice emptyGame)) = Some DuplicateCardError
   \<and> sampleCodec ''AS?'' = Inr \<lparr>Suit = SPADES, Rank = ACE, CardId = ''AS?''\<rparr>
   \<and> isWildcardId ''AS?''
   \<and> snd (AddCard sampleCodec oneWildAce ''AS?'') \<noteq> Inl DuplicateCardError"
proof -
  have nw: "\<not> isWildcardId (CardId \<lparr>Suit = SPADES, Rank = ACE, CardId = ''AS''\<rparr>)"
    by (simp add: isWildcardId_def)
  have twice: "docCodes aceTwice [] = [''AS'', ''2S'', ''3S''] @ ''AS'' # []"
    "''AS'' \<in> set [''AS'', ''2S'', ''3S'']"
    by (simp_all add: docCodes_def aceTwice_def)
  have chk: "tableauChecks aceTwice" "sint (sum_list (Tableau_Facedown aceTwice)) \<le> 21"
    "list_all (foundationOK sampleCodec) []"
    by (simp_all add: tableauChecks_def aceTwice_def)
  have reg: "\<not> isl (snd (AddCards sampleCodec NewRegister [''AS'', ''2S'', ''3S'']))"
    by (simp add: AddCard_eval sample_defs)
  have w: "sampleCodec ''AS?'' = Inr \<lparr>Suit = SPADES, Rank = ACE, CardId = ''AS?''\<rparr>"
    "isWildcardId (CardId \<lparr>Suit = SPADES, Rank = ACE, CardId = ''AS?''\<rparr>)"
    by (simp_all add: sample_defs)
  from C6_duplicate_code
         [where ParseCard = sampleCodec and code = "''AS''" and game = emptyGame
            and wcode = "''AS?''" and r = oneWildAce,
          OF sampleCodec_AS nw twice]
    chk reg w
  have d: "snd (snd (Import sampleCodec [] aceTwice emptyGame)) = Some DuplicateCardError"
    and wd: "snd (AddCard sampleCodec oneWildAce ''AS?'') \<noteq> Inl DuplicateCardError"
    by blast+
  from sampleCodec_AS nw twice chk reg d w wd show ?thesis by simp
qed

section \<open>The order in which the foundations are visited\<close>

lemma rangeOf_same:
  assumes "rangeOf m v1" "rangeOf m v2"
  shows "set v1 = set v2" and "mset v1 = mset v2"
proof -
  from assms have d: "distinct (map fst v1)" "distinct (map fst v2)"
    and m: "map_of v1 = map_of v2"
    by (simp_all add: rangeOf_def)
  from d m show s: "set v1 = set v2"
    by (simp add: map_of_inject_set)
  from d have "distinct v1" "distinct v2"
    by (simp_all add: distinct_map)
  with s show "mset v1 = mset v2"
    by (simp add: set_eq_iff_mset_eq_distinct)
qed

lemma mset_concat_snd_sum:
  "mset (concat (map snd v)) = sum_mset (image_mset (\<lambda>e. mset (snd e)) (mset v))"
  by (induction v) simp_all

lemma mset_concat_snd:
  "mset v1 = mset v2 \<Longrightarrow> mset (concat (map snd v1)) = mset (concat (map snd v2))"
  by (simp only: mset_concat_snd_sum)

lemma docCodes_mset:
  "mset v1 = mset v2 \<Longrightarrow> mset (docCodes save v1) = mset (docCodes save v2)"
  using mset_concat_snd [of v1 v2] by (simp add: docCodes_def)

lemma allParse_set: "allParse p codes \<longleftrightarrow> (\<forall>code\<in>set codes. \<not> isl (p code))"
  by (simp add: allParse_def list_all_iff)

lemma oneDeck_mset:
  assumes "mset cs = mset ds"
  shows "oneDeck cs \<longleftrightarrow> oneDeck ds"
proof -
  from assms have "mset (nonWildIds cs) = mset (nonWildIds ds)"
    by (simp add: nonWildIds_def)
  then have a: "distinct (nonWildIds cs) \<longleftrightarrow> distinct (nonWildIds ds)"
    by (rule mset_eq_imp_distinct_iff)
  from assms have b: "length cs = length ds"
    by (rule mset_eq_length)
  have c: "suitCount s cs = suitCount s ds" for s
  proof -
    from assms have "mset (filter (\<lambda>c. Suit c = s) cs) = mset (filter (\<lambda>c. Suit c = s) ds)"
      by simp
    then show ?thesis unfolding suitCount_def by (rule mset_eq_length)
  qed
  have d: "rankCount k cs = rankCount k ds" for k
  proof -
    from assms have "mset (filter (\<lambda>c. Rank c = k) cs) = mset (filter (\<lambda>c. Rank c = k) ds)"
      by simp
    then show ?thesis unfolding rankCount_def by (rule mset_eq_length)
  qed
  show ?thesis by (simp add: oneDeck_def a b c d)
qed

lemma cardsOf_mset:
  "mset xs = mset ys \<Longrightarrow> mset (cardsOf p xs) = mset (cardsOf p ys)"
  by (simp add: cardsOf_def)

lemma foundationsFill_only:
  "foundationsFill p visit g = g\<lparr>game_Foundations := game_Foundations (foundationsFill p visit g)\<rparr>"
proof (induction visit arbitrary: g)
  case Nil
  then show ?case by simp
next
  case (Cons entry rest)
  obtain key codes where e: "entry = (key, codes)" by (cases entry)
  let ?g = "g\<lparr>game_Foundations := (game_Foundations g)(the (suitOfKey key) := cardsOf p codes)\<rparr>"
  from Cons.IH [of ?g] have
    "foundationsFill p rest ?g = ?g\<lparr>game_Foundations := game_Foundations (foundationsFill p rest ?g)\<rparr>" .
  then show ?case by (simp add: e)
qed

lemma fill_out:
  "s \<notin> suitOfEntry ` set visit \<Longrightarrow>
     game_Foundations (foundationsFill p visit g) s = game_Foundations g s"
  by (induction visit arbitrary: g) (auto simp: suitOfEntry_def)

lemma fill_in:
  "distinct (map suitOfEntry visit) \<Longrightarrow> (key, codes) \<in> set visit \<Longrightarrow>
     game_Foundations (foundationsFill p visit g) (the (suitOfKey key)) = cardsOf p codes"
proof (induction visit arbitrary: g)
  case Nil
  then show ?case by simp
next
  case (Cons entry rest)
  obtain k c where e: "entry = (k, c)" by (cases entry)
  show ?case
  proof (cases "(key, codes) = (k, c)")
    case True
    with Cons.prems(1) e have "the (suitOfKey key) \<notin> suitOfEntry ` set rest"
      by (simp add: suitOfEntry_def)
    from fill_out [OF this] True e show ?thesis by simp
  next
    case False
    with Cons.prems e have "(key, codes) \<in> set rest" "distinct (map suitOfEntry rest)"
      by auto
    from Cons.IH [OF this(2,1)] e show ?thesis by simp
  qed
qed

lemma suitOfKey_inj: "suitOfKey k1 = Some s \<Longrightarrow> suitOfKey k2 = Some s \<Longrightarrow> k1 = k2"
  by (auto simp: suitOfKey_def split: if_splits)

lemma distinct_suits:
  assumes "distinct (map fst visit)" "list_all (foundationOK p) visit"
  shows "distinct (map suitOfEntry visit)"
proof -
  have "inj_on suitOfEntry (set visit)"
  proof (rule inj_onI)
    fix a b assume a: "a \<in> set visit" and b: "b \<in> set visit"
      and eq: "suitOfEntry a = suitOfEntry b"
    from a b assms(2) have "foundationOK p a" "foundationOK p b"
      by (simp_all add: list_all_iff)
    then obtain sa sb where "suitOfKey (fst a) = Some sa" "suitOfKey (fst b) = Some sb"
      by (auto simp: foundationOK_def split: option.splits)
    with eq have "fst a = fst b"
      by (auto simp: suitOfEntry_def intro: suitOfKey_inj)
    with a b assms(1) show "a = b"
      by (meson distinct_map inj_onD)
  qed
  moreover from assms(1) have "distinct visit" by (simp add: distinct_map)
  ultimately show ?thesis by (simp add: distinct_map)
qed

lemma foundationsFill_order:
  assumes r1: "rangeOf m v1" and r2: "rangeOf m v2" and ok: "list_all (foundationOK p) v1"
  shows "foundationsFill p v1 g = foundationsFill p v2 g"
proof -
  from rangeOf_same [OF r1 r2] have s: "set v1 = set v2" by simp
  with ok have ok2: "list_all (foundationOK p) v2" by (simp add: list_all_iff)
  from r1 r2 have "distinct (map fst v1)" "distinct (map fst v2)" by (simp_all add: rangeOf_def)
  with ok ok2 have d: "distinct (map suitOfEntry v1)" "distinct (map suitOfEntry v2)"
    by (simp_all add: distinct_suits [of _ p])
  have "game_Foundations (foundationsFill p v1 g) suit
          = game_Foundations (foundationsFill p v2 g) suit" for suit
  proof (cases "suit \<in> suitOfEntry ` set v1")
    case True
    then obtain key codes where e: "(key, codes) \<in> set v1" and k: "suit = the (suitOfKey key)"
      by (auto simp: suitOfEntry_def)
    from fill_in [OF d(1) e, of p g] fill_in [OF d(2), of key codes p g] e s k
    show ?thesis by simp
  next
    case False
    with s fill_out [of suit v1 p g] fill_out [of suit v2 p g] show ?thesis by simp
  qed
  then have "game_Foundations (foundationsFill p v1 g) = game_Foundations (foundationsFill p v2 g)"
    by (rule ext)
  with foundationsFill_only [of p v1 g] foundationsFill_only [of p v2 g] show ?thesis
    by simp
qed

text \<open>
  C4, amended: \<open>Import\<close> visits the foundations in the order in which \<^verbatim>\<open>range\<close> yields
  the entries of the input map, which is not fixed. Two runs on equal documents agree on
  whether \<open>Import\<close> succeeds, and a successful run returns the same game whatever the
  order; the error of a failing run may depend on the order.
\<close>

theorem C4_success_order_independent:
  assumes r1: "rangeOf (Foundations save) visit1"
    and r2: "rangeOf (Foundations save) visit2"
    and ok: "snd (snd (Import ParseCard visit1 save game)) = None"
  shows "snd (Import ParseCard visit2 save game) = snd (Import ParseCard visit1 save game)"
proof -
  from ok obtain r g where run: "Import ParseCard visit1 save game = (r, g, None)"
    by (metis prod.collapse)
  then have steps: "ImportSteps ParseCard visit1 save game = (r, g, None)" and t: "Total r = 52"
    by (simp_all add: Import_None_iff)
  from steps obtain cs where chk: "tableauChecks save"
    and fd: "sint (sum_list (Tableau_Facedown save)) \<le> 21"
    and keys: "list_all (foundationOK ParseCard) visit1"
    and reg: "AddCards ParseCard NewRegister (docCodes save visit1) = (r, Inr cs)"
    and g: "g = importedGame ParseCard visit1 save game"
    by (auto simp: ImportSteps_None_iff)
  from rangeOf_same [OF r1 r2] have s: "set visit1 = set visit2" and m: "mset visit1 = mset visit2"
    by simp_all
  from docCodes_mset [OF m] have dm: "mset (docCodes save visit1) = mset (docCodes save visit2)" .
  from AddCards_Inr_cardsOf [OF reg] have p1: "allParse ParseCard (docCodes save visit1)"
    and d1: "oneDeck (cardsOf ParseCard (docCodes save visit1))"
    by (simp_all add: fits_NewRegister)
  from AddCards_Inr_Total [OF reg] t have n1: "length (docCodes save visit1) = 52"
    by (simp add: NewRegister_def)
  from keys s have keys2: "list_all (foundationOK ParseCard) visit2"
    by (simp add: list_all_iff)
  from p1 mset_eq_setD [OF dm] have p2: "allParse ParseCard (docCodes save visit2)"
    by (simp add: allParse_set)
  from d1 oneDeck_mset [OF cardsOf_mset [OF dm]]
  have d2: "oneDeck (cardsOf ParseCard (docCodes save visit2))" by simp
  from n1 mset_eq_length [OF dm] have n2: "length (docCodes save visit2) = 52" by simp
  from Import_succeeds [OF chk fd keys2 p2 d2 n2, of game] obtain r' where
    run2: "Import ParseCard visit2 save game = (r', importedGame ParseCard visit2 save game, None)"
    by blast
  from foundationsFill_order [OF r1 r2 keys]
  have "importedGame ParseCard visit1 save game = importedGame ParseCard visit2 save game"
    by (simp add: importedGame_def)
  with run run2 g show ?thesis by simp
qed

text \<open>
  C4, as stated, fails: the document below has a code that does not parse under
  \<^verbatim>\<open>spades\<close> and another under \<^verbatim>\<open>hearts\<close>; both orders are orders of its map, and the
  returned error names the one code or the other.
\<close>

theorem C4_counterexample:
  "rangeOf (Foundations twoBadCodes) badSpadesFirst
   \<and> rangeOf (Foundations twoBadCodes) badHeartsFirst
   \<and> snd (snd (Import sampleCodec badSpadesFirst twoBadCodes emptyGame)) = Some (ParseError ''XX'')
   \<and> snd (snd (Import sampleCodec badHeartsFirst twoBadCodes emptyGame)) = Some (ParseError ''YY'')"
proof -
  have a: "rangeOf (Foundations twoBadCodes) badSpadesFirst"
    "rangeOf (Foundations twoBadCodes) badHeartsFirst"
    by (auto simp: rangeOf_def twoBadCodes_def badSpadesFirst_def badHeartsFirst_def)
  have b: "snd (snd (Import sampleCodec badSpadesFirst twoBadCodes emptyGame))
             = Some (ParseError ''XX'')"
    by (simp add: twoBadCodes_def badSpadesFirst_def Import_eval AddCard_eval sample_defs)
  have c: "snd (snd (Import sampleCodec badHeartsFirst twoBadCodes emptyGame))
             = Some (ParseError ''YY'')"
    by (simp add: twoBadCodes_def badHeartsFirst_def Import_eval AddCard_eval sample_defs)
  from a b c show ?thesis by (intro conjI)
qed

theorem C4_witness:
  "rangeOf (Foundations twoFoundations) spadesFirst
   \<and> rangeOf (Foundations twoFoundations) heartsFirst
   \<and> snd (snd (Import sampleCodec spadesFirst twoFoundations emptyGame)) = None
   \<and> snd (Import sampleCodec heartsFirst twoFoundations emptyGame)
       = snd (Import sampleCodec spadesFirst twoFoundations emptyGame)"
proof -
  have a: "rangeOf (Foundations twoFoundations) spadesFirst"
    and b: "rangeOf (Foundations twoFoundations) heartsFirst"
    by (auto simp: rangeOf_def twoFoundations_def spadesFirst_def heartsFirst_def)
  have c: "snd (snd (Import sampleCodec spadesFirst twoFoundations emptyGame)) = None"
    by (simp add: twoFoundations_def spadesFirst_def Import_eval AddCard_eval sample_defs)
  from C4_success_order_independent [OF a b c] a b c show ?thesis by (intro conjI)
qed


end
